theory Spec2Isabelle
  imports Complex_Main
begin

section \<open>Python values\<close>

text \<open>
  The program of \<^verbatim>\<open>run.py\<close> handles the values that \<^verbatim>\<open>json.loads\<close> produces and
  that \<^verbatim>\<open>json.dump\<close> consumes: \<^verbatim>\<open>None\<close>, booleans, integers, floats, strings, lists
  and dictionaries with string keys. A dictionary is the list of its items in insertion
  order. A float is carried as the rational number it denotes: the program does no
  arithmetic on numbers, it only tests them for truth and passes them on. A Python string
  is the list of the bytes of its UTF-8 encoding, so an ASCII character is one \<open>char\<close> and
  any other character is a sequence of two to four; byte lists that are not UTF-8 stand
  for no Python string.
\<close>

datatype json =
    JNull
  | JBool bool
  | JInt int
  | JFloat rat
  | JStr string
  | JArr "json list"
  | JObj "(string \<times> json) list"

datatype py_error =
    AttributeError
  | TypeError
  | KeyError
  | RequestError
  | OSError
  | SystemExit string

text \<open>Truth value testing, as \<^verbatim>\<open>if x\<close>, \<^verbatim>\<open>not x\<close>, \<^verbatim>\<open>x or y\<close> and \<^verbatim>\<open>x and y\<close> apply it.\<close>

fun truthy :: "json \<Rightarrow> bool" where
  "truthy JNull = False"
| "truthy (JBool b) = b"
| "truthy (JInt n) = (n \<noteq> 0)"
| "truthy (JFloat x) = (x \<noteq> 0)"
| "truthy (JStr s) = (s \<noteq> [])"
| "truthy (JArr xs) = (xs \<noteq> [])"
| "truthy (JObj kvs) = (kvs \<noteq> [])"

definition py_or :: "json \<Rightarrow> json \<Rightarrow> json" where
  "py_or a b = (if truthy a then a else b)"

text \<open>\<^verbatim>\<open>d.get(k)\<close> on a dictionary: the value, or \<^verbatim>\<open>None\<close> when the key is absent.\<close>

definition dict_get :: "(string \<times> json) list \<Rightarrow> string \<Rightarrow> json" where
  "dict_get kvs k = (case map_of kvs k of None \<Rightarrow> JNull | Some v \<Rightarrow> v)"

text \<open>
  \<^verbatim>\<open>x.get(k)\<close> on any value: only a dictionary has the method, every other value
  raises \<^verbatim>\<open>AttributeError\<close>.
\<close>

fun attr_get :: "json \<Rightarrow> string \<Rightarrow> py_error + json" where
  "attr_get (JObj kvs) k = Inr (dict_get kvs k)"
| "attr_get _ k = Inl AttributeError"

text \<open>\<^verbatim>\<open>x.get(k, {})\<close>: the default only replaces an absent key, not a stored \<^verbatim>\<open>None\<close>.\<close>

fun attr_get_default :: "json \<Rightarrow> string \<Rightarrow> json \<Rightarrow> py_error + json" where
  "attr_get_default (JObj kvs) k d =
     Inr (case map_of kvs k of None \<Rightarrow> d | Some v \<Rightarrow> v)"
| "attr_get_default _ k d = Inl AttributeError"

section \<open>String operations\<close>

definition starts_with :: "string \<Rightarrow> string \<Rightarrow> bool" where
  "starts_with sep s = (take (length sep) s = sep)"

text \<open>\<^verbatim>\<open>sep in s\<close> for strings: \<^verbatim>\<open>sep\<close> occurs in \<^verbatim>\<open>s\<close> as a substring.\<close>

fun contains :: "string \<Rightarrow> string \<Rightarrow> bool" where
  "contains sep [] = (sep = [])"
| "contains sep (c # cs) = (starts_with sep (c # cs) \<or> contains sep cs)"

text \<open>
  \<^verbatim>\<open>s.split(sep)\<close> for a separator that is not empty: the pieces between the
  occurrences of \<^verbatim>\<open>sep\<close>, found from the left without overlap. The accumulator holds
  the current piece reversed.
\<close>

function split_acc :: "string \<Rightarrow> string \<Rightarrow> string \<Rightarrow> string list" where
  "split_acc sep acc [] = [rev acc]"
| "split_acc sep acc (c # cs) =
     (if sep \<noteq> [] \<and> starts_with sep (c # cs)
      then rev acc # split_acc sep [] (drop (length sep) (c # cs))
      else split_acc sep (c # acc) cs)"
  by pat_completeness auto
termination
  by (relation "measure (\<lambda>(sep, acc, s). length s)") auto

definition split :: "string \<Rightarrow> string \<Rightarrow> string list" where
  "split s sep = split_acc sep [] s"

text \<open>
  The characters of a string: the first byte of a character tells how many bytes encode
  it.
\<close>

definition utf8_width :: "char \<Rightarrow> nat" where
  "utf8_width c =
     (let n = (of_char c :: nat)
      in if n < 192 then 1 else if n < 224 then 2 else if n < 240 then 3 else 4)"

function utf8_chars :: "string \<Rightarrow> string list" where
  "utf8_chars [] = []"
| "utf8_chars (c # cs) =
     (c # take (utf8_width c - 1) cs) # utf8_chars (drop (utf8_width c - 1) cs)"
  by pat_completeness auto
termination
  by (relation "measure length") auto

text \<open>
  The characters for which \<^verbatim>\<open>str.isspace\<close> holds, each as its UTF-8 bytes. This is
  the table of CPython: U+0009 to U+000D, U+001C to U+0020, U+0085, U+00A0, U+1680,
  U+2000 to U+200A, U+2028, U+2029, U+202F, U+205F and U+3000.
\<close>

definition py_whitespace :: "string list" where
  "py_whitespace =
     [[CHR 0x09], [CHR 0x0A], [CHR 0x0B], [CHR 0x0C], [CHR 0x0D],
      [CHR 0x1C], [CHR 0x1D], [CHR 0x1E], [CHR 0x1F], [CHR 0x20],
      [CHR 0xC2, CHR 0x85], [CHR 0xC2, CHR 0xA0],
      [CHR 0xE1, CHR 0x9A, CHR 0x80],
      [CHR 0xE2, CHR 0x80, CHR 0x80], [CHR 0xE2, CHR 0x80, CHR 0x81],
      [CHR 0xE2, CHR 0x80, CHR 0x82], [CHR 0xE2, CHR 0x80, CHR 0x83],
      [CHR 0xE2, CHR 0x80, CHR 0x84], [CHR 0xE2, CHR 0x80, CHR 0x85],
      [CHR 0xE2, CHR 0x80, CHR 0x86], [CHR 0xE2, CHR 0x80, CHR 0x87],
      [CHR 0xE2, CHR 0x80, CHR 0x88], [CHR 0xE2, CHR 0x80, CHR 0x89],
      [CHR 0xE2, CHR 0x80, CHR 0x8A],
      [CHR 0xE2, CHR 0x80, CHR 0xA8], [CHR 0xE2, CHR 0x80, CHR 0xA9],
      [CHR 0xE2, CHR 0x80, CHR 0xAF], [CHR 0xE2, CHR 0x81, CHR 0x9F],
      [CHR 0xE3, CHR 0x80, CHR 0x80]]"

definition py_isspace :: "string \<Rightarrow> bool" where
  "py_isspace c = (c \<in> set py_whitespace)"

text \<open>\<^verbatim>\<open>s.strip()\<close>: the string without its leading and trailing whitespace characters.\<close>

definition strip :: "string \<Rightarrow> string" where
  "strip s = concat (rev (dropWhile py_isspace (rev (dropWhile py_isspace (utf8_chars s)))))"

text \<open>\<^verbatim>\<open>s.replace("+", " ")\<close>.\<close>

definition replace_plus :: "string \<Rightarrow> string" where
  "replace_plus s = map (\<lambda>c. if c = CHR ''+'' then CHR '' '' else c) s"

text \<open>
  \<^verbatim>\<open>urllib.parse.quote_plus\<close>: a space becomes \<^verbatim>\<open>+\<close>, letters, digits and
  \<^verbatim>\<open>_.-~\<close> are kept, every other byte of the UTF-8 encoding becomes \<^verbatim>\<open>%XX\<close> in
  upper-case hex.
\<close>

definition hex_digit :: "nat \<Rightarrow> char" where
  "hex_digit n = (if n < 10 then char_of (48 + n) else char_of (55 + n))"

definition unreserved :: "char \<Rightarrow> bool" where
  "unreserved c =
     (c \<in> set ''ABCDEFGHIJKLMNOPQRSTUVWXYZabcdefghijklmnopqrstuvwxyz0123456789_.-~'')"

definition quote_char :: "char \<Rightarrow> string" where
  "quote_char c =
     (if c = CHR '' '' then ''+''
      else if unreserved c then [c]
      else [CHR ''%'', hex_digit ((of_char c :: nat) div 16),
            hex_digit ((of_char c :: nat) mod 16)])"

definition quote_plus :: "string \<Rightarrow> string" where
  "quote_plus s = concat (map quote_char s)"

text \<open>\<^verbatim>\<open>str(n)\<close> for a natural number, as the f-strings of \<^verbatim>\<open>main\<close> format it.\<close>

fun str_nat :: "nat \<Rightarrow> string" where
  "str_nat n =
     (if n < 10 then [char_of (48 + n)]
      else str_nat (n div 10) @ [char_of (48 + n mod 10)])"

declare str_nat.simps [simp del]

section \<open>The world the program runs in\<close>

text \<open>
  Everything outside the program is a field of \<open>world\<close>: what the two file dialogs
  return (the empty string when the user cancels), the environment variables, the UTC
  clock already formatted by \<^verbatim>\<open>strftime\<close>, the rows that \<^verbatim>\<open>csv.DictReader\<close> yields
  for a path (or the error raised by opening or decoding the file), the answer of the web
  service to the \<open>n\<close>-th request of the run, and whether a path can be opened for
  writing. Everything the program does to the world is an \<open>event\<close>, appended to a
  trace in program order.
\<close>

type_synonym row = "string \<rightharpoonup> string"

datatype request = Request string "(string \<times> json) list"

datatype response = Http_failure | Http_json json

datatype event =
    Ev_open_dialog
  | Ev_save_dialog
  | Ev_print string
  | Ev_getenv string
  | Ev_clock
  | Ev_read_csv string
  | Ev_http request
  | Ev_sleep
  | Ev_write string json

record world =
  open_dialog :: string
  save_dialog :: string
  environ :: "string \<rightharpoonup> string"
  utc_now :: string
  csv_file :: "string \<Rightarrow> py_error + row list"
  http_get :: "nat \<Rightarrow> request \<Rightarrow> response"
  can_write :: "string \<Rightarrow> bool"

fun is_http :: "event \<Rightarrow> bool" where
  "is_http (Ev_http r) = True"
| "is_http _ = False"

definition http_count :: "event list \<Rightarrow> nat" where
  "http_count t = length (filter is_http t)"

fun writes :: "event list \<Rightarrow> (string \<times> json) list" where
  "writes [] = []"
| "writes (Ev_write p doc # t) = (p, doc) # writes t"
| "writes (e # t) = writes t"

text \<open>
  \<^verbatim>\<open>requests.get(url, params=params, timeout=10)\<close>, \<^verbatim>\<open>r.raise_for_status()\<close> and
  \<^verbatim>\<open>r.json()\<close>: one request goes out; a network error, an HTTP error status or a body
  that is not JSON raises.
\<close>

definition requests_get :: "world \<Rightarrow> request \<Rightarrow> event list \<Rightarrow> response \<times> event list" where
  "requests_get w req t = (http_get w (http_count t) req, t @ [Ev_http req])"

section \<open>Config\<close>

definition BASE_PLACES_URL :: string where
  "BASE_PLACES_URL = ''https://maps.googleapis.com/maps/api/place''"

definition API_REQUEST_LIMIT :: nat where
  "API_REQUEST_LIMIT = 1000"

section \<open>\<^verbatim>\<open>ask_input_csv_path\<close>, \<^verbatim>\<open>ask_output_geojson_path\<close>, \<^verbatim>\<open>get_api_key\<close>\<close>

text \<open>
  Both dialog functions return \<^verbatim>\<open>path if path else None\<close>. The initial directory and
  the suggested file name that \<^verbatim>\<open>main\<close> passes to the save dialog only fill in the
  dialog window and are left out.
\<close>

definition ask_input_csv_path :: "world \<Rightarrow> event list \<Rightarrow> string option \<times> event list" where
  "ask_input_csv_path w t =
     ((if open_dialog w \<noteq> [] then Some (open_dialog w) else None), t @ [Ev_open_dialog])"

definition ask_output_geojson_path :: "world \<Rightarrow> event list \<Rightarrow> string option \<times> event list" where
  "ask_output_geojson_path w t =
     ((if save_dialog w \<noteq> [] then Some (save_dialog w) else None), t @ [Ev_save_dialog])"

text \<open>\<^verbatim>\<open>os.environ.get(k)\<close>, with \<^verbatim>\<open>None\<close> and the empty string both false.\<close>

definition env_truthy :: "string option \<Rightarrow> bool" where
  "env_truthy v = (case v of None \<Rightarrow> False | Some s \<Rightarrow> s \<noteq> [])"

definition api_key_message :: string where
  "api_key_message =
     ''Set GOOGLE_PLACES_API_KEY (or GOOGLE_MAPS_API_KEY) in your environment. '' @
     ''Enable 'Places API' and 'Geocoding API' in Google Cloud Console.''"

definition get_api_key :: "world \<Rightarrow> event list \<Rightarrow> (py_error + string) \<times> event list" where
  "get_api_key w t =
     (let t1 = t @ [Ev_getenv ''GOOGLE_PLACES_API_KEY''];
          k1 = environ w ''GOOGLE_PLACES_API_KEY'';
          (key, t2) =
            (if env_truthy k1 then (k1, t1)
             else (environ w ''GOOGLE_MAPS_API_KEY'',
                   t1 @ [Ev_getenv ''GOOGLE_MAPS_API_KEY'']))
      in case key of
           None \<Rightarrow> (Inl (SystemExit api_key_message), t2)
         | Some k \<Rightarrow>
             if k = [] then (Inl (SystemExit api_key_message), t2) else (Inr k, t2))"

section \<open>\<^verbatim>\<open>find_place_id\<close>\<close>

text \<open>
  The name taken from the URL path, lines 89 to 97. The subscripts \<^verbatim>\<open>[0]\<close> and
  \<^verbatim>\<open>[-1]\<close> are inside the \<^verbatim>\<open>try\<close>, whose handler leaves \<^verbatim>\<open>name_from_url\<close> at
  \<^verbatim>\<open>None\<close>.
\<close>

definition name_from_url :: "string \<Rightarrow> string option" where
  "name_from_url maps_url =
     (if maps_url \<noteq> [] \<and> contains ''/place/'' maps_url then
        (case split maps_url ''?'' of
           [] \<Rightarrow> None
         | path # _ \<Rightarrow>
             (case split path ''/place/'' of
                [] \<Rightarrow> None
              | ps \<Rightarrow>
                  (case split (last ps) ''/data='' of
                     [] \<Rightarrow> None
                   | part # _ \<Rightarrow>
                       if part \<noteq> [] then Some (strip (replace_plus part)) else None)))
      else None)"

text \<open>\<^verbatim>\<open>(name_from_url or title or "").strip()\<close>\<close>

definition place_query :: "string \<Rightarrow> string \<Rightarrow> string" where
  "place_query title maps_url =
     strip (case name_from_url maps_url of
              Some n \<Rightarrow> if n \<noteq> [] then n else title
            | None \<Rightarrow> title)"

text \<open>The subscript \<^verbatim>\<open>x[0]\<close> on a value that is true.\<close>

fun subscript0 :: "json \<Rightarrow> py_error + json" where
  "subscript0 (JArr (x # xs)) = Inr x"
| "subscript0 (JStr (c # cs)) = Inr (JStr (c # take (utf8_width c - 1) cs))"
| "subscript0 (JObj kvs) = Inl KeyError"
| "subscript0 _ = Inl TypeError"

text \<open>Lines 110 to 113, on the decoded body \<^verbatim>\<open>data\<close>.\<close>

definition find_place_id_result :: "json \<Rightarrow> py_error + json" where
  "find_place_id_result data =
     (case attr_get data ''status'' of
        Inl e \<Rightarrow> Inl e
      | Inr status \<Rightarrow>
          if status \<noteq> JStr ''OK'' then Inr JNull
          else
            (case attr_get data ''candidates'' of
               Inl e \<Rightarrow> Inl e
             | Inr candidates \<Rightarrow>
                 if \<not> truthy candidates then Inr JNull
                 else
                   (case subscript0 candidates of
                      Inl e \<Rightarrow> Inl e
                    | Inr c \<Rightarrow> attr_get c ''place_id'')))"

definition find_place_request :: "string \<Rightarrow> string \<Rightarrow> request" where
  "find_place_request api_key query =
     Request (BASE_PLACES_URL @ ''/findplacefromtext/json'')
       [(''key'', JStr api_key), (''input'', JStr query),
        (''inputtype'', JStr ''textquery''), (''fields'', JStr ''place_id'')]"

definition find_place_id ::
  "world \<Rightarrow> string \<Rightarrow> string \<Rightarrow> string \<Rightarrow> event list \<Rightarrow> (py_error + json) \<times> event list" where
  "find_place_id w api_key title maps_url t =
     (let query = place_query title maps_url
      in if query = [] then (Inr JNull, t)
         else
           (case requests_get w (find_place_request api_key query) t of
              (Http_failure, t') \<Rightarrow> (Inl RequestError, t')
            | (Http_json data, t') \<Rightarrow> (find_place_id_result data, t')))"

section \<open>\<^verbatim>\<open>get_place_details\<close>\<close>

record details =
  lat :: json
  lng :: json
  address :: json
  name :: json
  country_code :: json

text \<open>
  \<^verbatim>\<open>"location" not in geom\<close> and \<^verbatim>\<open>"country" in (...)\<close>: membership of a string in
  a value. A dictionary is searched by key, a list by element, a string by substring;
  nothing else is a container.
\<close>

fun str_in :: "string \<Rightarrow> json \<Rightarrow> py_error + bool" where
  "str_in k (JObj kvs) = Inr (k \<in> set (map fst kvs))"
| "str_in k (JArr xs) = Inr (JStr k \<in> set xs)"
| "str_in k (JStr s) = Inr (contains k s)"
| "str_in k _ = Inl TypeError"

text \<open>\<^verbatim>\<open>x[k]\<close> with a string key, on a value in which \<^verbatim>\<open>k in x\<close> holds.\<close>

fun subscript_key :: "json \<Rightarrow> string \<Rightarrow> py_error + json" where
  "subscript_key (JObj kvs) k =
     (case map_of kvs k of None \<Rightarrow> Inl KeyError | Some v \<Rightarrow> Inr v)"
| "subscript_key _ k = Inl TypeError"

text \<open>The items a \<^verbatim>\<open>for\<close> loop draws from a value.\<close>

fun py_iter :: "json \<Rightarrow> py_error + json list" where
  "py_iter (JArr xs) = Inr xs"
| "py_iter (JStr s) = Inr (map JStr (utf8_chars s))"
| "py_iter (JObj kvs) = Inr (map (\<lambda>kv. JStr (fst kv)) kvs)"
| "py_iter _ = Inl TypeError"

text \<open>The loop of lines 141 to 144 over the address components.\<close>

fun country_loop :: "json list \<Rightarrow> py_error + json" where
  "country_loop [] = Inr JNull"
| "country_loop (component # rest) =
     (case attr_get component ''types'' of
        Inl e \<Rightarrow> Inl e
      | Inr tys \<Rightarrow>
          (case str_in ''country'' (py_or tys (JArr [])) of
             Inl e \<Rightarrow> Inl e
           | Inr found \<Rightarrow>
               if found then attr_get component ''short_name'' else country_loop rest))"

text \<open>Lines 126 to 151, on the decoded body \<^verbatim>\<open>data\<close>.\<close>

definition get_place_details_result :: "json \<Rightarrow> py_error + details option" where
  "get_place_details_result data =
     (case attr_get data ''status'' of
        Inl e \<Rightarrow> Inl e
      | Inr status \<Rightarrow>
     if status \<noteq> JStr ''OK'' then Inr None
     else
     (case attr_get_default data ''result'' (JObj []) of
        Inl e \<Rightarrow> Inl e
      | Inr result \<Rightarrow>
     (case attr_get result ''geometry'' of
        Inl e \<Rightarrow> Inl e
      | Inr geom \<Rightarrow>
     if \<not> truthy geom then Inr None
     else
     (case str_in ''location'' geom of
        Inl e \<Rightarrow> Inl e
      | Inr has_location \<Rightarrow>
     if \<not> has_location then Inr None
     else
     (case subscript_key geom ''location'' of
        Inl e \<Rightarrow> Inl e
      | Inr location \<Rightarrow>
     (case attr_get location ''lat'' of
        Inl e \<Rightarrow> Inl e
      | Inr lat_v \<Rightarrow>
     (case attr_get location ''lng'' of
        Inl e \<Rightarrow> Inl e
      | Inr lng_v \<Rightarrow>
     if lat_v = JNull \<or> lng_v = JNull then Inr None
     else
     (case attr_get result ''formatted_address'' of
        Inl e \<Rightarrow> Inl e
      | Inr fa \<Rightarrow>
     (case attr_get result ''name'' of
        Inl e \<Rightarrow> Inl e
      | Inr nm \<Rightarrow>
     (case attr_get result ''address_components'' of
        Inl e \<Rightarrow> Inl e
      | Inr comps \<Rightarrow>
     (case py_iter (py_or comps (JArr [])) of
        Inl e \<Rightarrow> Inl e
      | Inr items \<Rightarrow>
     (case country_loop items of
        Inl e \<Rightarrow> Inl e
      | Inr cc \<Rightarrow>
          Inr (Some \<lparr>lat = lat_v, lng = lng_v,
                     address = py_or fa (JStr []), name = py_or nm (JStr []),
                     country_code = cc\<rparr>)))))))))))))"

definition place_details_request :: "string \<Rightarrow> json \<Rightarrow> request" where
  "place_details_request api_key place_id =
     Request (BASE_PLACES_URL @ ''/details/json'')
       [(''key'', JStr api_key), (''place_id'', place_id),
        (''fields'', JStr ''geometry,formatted_address,name,address_components'')]"

definition get_place_details ::
  "world \<Rightarrow> string \<Rightarrow> json \<Rightarrow> event list \<Rightarrow> (py_error + details option) \<times> event list" where
  "get_place_details w api_key place_id t =
     (case requests_get w (place_details_request api_key place_id) t of
        (Http_failure, t') \<Rightarrow> (Inl RequestError, t')
      | (Http_json data, t') \<Rightarrow> (get_place_details_result data, t'))"

section \<open>\<^verbatim>\<open>build_feature\<close>\<close>

text \<open>\<^verbatim>\<open>(row.get(k) or "").strip()\<close>\<close>

definition row_field :: "row \<Rightarrow> string \<Rightarrow> string" where
  "row_field r k = strip (case r k of None \<Rightarrow> [] | Some v \<Rightarrow> v)"

definition build_feature :: "row \<Rightarrow> details option \<Rightarrow> string \<Rightarrow> json" where
  "build_feature r dets now_iso =
     (let title = row_field r ''Title'';
          url = row_field r ''URL'';
          (coords, props) =
            (case dets of
               Some d \<Rightarrow>
                 ([lng d, lat d],
                  [(''date'', JStr now_iso),
                   (''google_maps_url'',
                      JStr (if url \<noteq> [] then url
                            else ''http://maps.google.com/?q='' @ quote_plus title)),
                   (''name'', py_or (name d) (JStr title)),
                   (''location'',
                      JObj ((''address'', address d) #
                            (if truthy (country_code d)
                             then [(''country_code'', country_code d)] else [])))])
             | None \<Rightarrow>
                 ([JInt 0, JInt 0],
                  [(''date'', JStr now_iso),
                   (''google_maps_url'', JStr url),
                   (''Comment'',
                      JStr ''No location information is available for this saved place'')] @
                  (if title \<noteq> [] then [(''name'', JStr title)] else [])))
      in JObj [(''type'', JStr ''Feature''),
               (''geometry'', JObj [(''type'', JStr ''Point''), (''coordinates'', JArr coords)]),
               (''properties'', JObj props)])"

section \<open>\<^verbatim>\<open>main\<close>\<close>

text \<open>The variables of the enrichment loop, with the trace of what the run has done so far.\<close>

record loop_state =
  features :: "json list"
  request_count :: nat
  limit_reached :: bool
  events :: "event list"

text \<open>
  Lines 220 to 231: the lookup for one row. An exception leaves \<^verbatim>\<open>main\<close> with the
  trace at that point; otherwise the row has its \<^verbatim>\<open>details\<close> and the loop variables
  are updated.
\<close>

definition lookup_row ::
  "world \<Rightarrow> string \<Rightarrow> string \<Rightarrow> string \<Rightarrow> loop_state \<Rightarrow>
     (py_error \<times> event list) + (details option \<times> loop_state)" where
  "lookup_row w api_key title url s =
     (if request_count s < API_REQUEST_LIMIT then
        (case find_place_id w api_key title url (events s) of
           (Inl e, t1) \<Rightarrow> Inl (e, t1)
         | (Inr place_id, t1) \<Rightarrow>
             let s1 = s\<lparr>request_count := request_count s + 1, events := t1\<rparr>
             in if truthy place_id \<and> request_count s1 < API_REQUEST_LIMIT then
                  (case get_place_details w api_key place_id (events s1 @ [Ev_sleep]) of
                     (Inl e, t2) \<Rightarrow> Inl (e, t2)
                   | (Inr dets, t2) \<Rightarrow>
                       Inr (dets, s1\<lparr>request_count := request_count s1 + 1, events := t2\<rparr>))
                else if truthy place_id then Inr (None, s1\<lparr>limit_reached := True\<rparr>)
                else Inr (None, s1))
      else Inr (None, s\<lparr>limit_reached := True\<rparr>))"

text \<open>The f-string of line 219.\<close>

definition processing_message :: "string \<Rightarrow> string \<Rightarrow> string" where
  "processing_message title url =
     ''Processing: '' @
     (if title \<noteq> [] then title else if url \<noteq> [] then url else ''(no title/url)'')"

text \<open>Lines 217 to 234: the body of the loop for the row \<open>r\<close> at index \<open>i\<close>.\<close>

definition process_row ::
  "world \<Rightarrow> string \<Rightarrow> string \<Rightarrow> nat \<Rightarrow> row \<Rightarrow> loop_state \<Rightarrow>
     (py_error \<times> event list) + loop_state" where
  "process_row w api_key now_iso i r s =
     (let title = row_field r ''Title'';
          url = row_field r ''URL'';
          s0 = s\<lparr>events := events s @ [Ev_print (processing_message title url)]\<rparr>
      in case lookup_row w api_key title url s0 of
           Inl x \<Rightarrow> Inl x
         | Inr (dets, s1) \<Rightarrow>
             let s2 = (if dets = None \<and> 0 < i
                       then s1\<lparr>events := events s1 @ [Ev_sleep]\<rparr> else s1)
             in Inr (s2\<lparr>features := features s2 @ [build_feature r dets now_iso]\<rparr>))"

text \<open>The loop of line 216, from index \<open>i\<close> on.\<close>

fun enrich ::
  "world \<Rightarrow> string \<Rightarrow> string \<Rightarrow> nat \<Rightarrow> row list \<Rightarrow> loop_state \<Rightarrow>
     (py_error \<times> event list) + loop_state" where
  "enrich w api_key now_iso i [] s = Inr s"
| "enrich w api_key now_iso i (r # rs) s =
     (case process_row w api_key now_iso i r s of
        Inl x \<Rightarrow> Inl x
      | Inr s' \<Rightarrow> enrich w api_key now_iso (Suc i) rs s')"

text \<open>Lines 203 to 211: the rows of the file, without those that have neither title nor URL.\<close>

definition keep_row :: "row \<Rightarrow> bool" where
  "keep_row r = (row_field r ''Title'' \<noteq> [] \<or> row_field r ''URL'' \<noteq> [])"

definition read_rows ::
  "world \<Rightarrow> string \<Rightarrow> event list \<Rightarrow> (py_error + row list) \<times> event list" where
  "read_rows w csv_path t =
     (case csv_file w csv_path of
        Inl e \<Rightarrow> (Inl e, t @ [Ev_read_csv csv_path])
      | Inr rows \<Rightarrow> (Inr (filter keep_row rows), t @ [Ev_read_csv csv_path]))"

datatype outcome = Returned | Raised py_error

definition feature_collection :: "json list \<Rightarrow> json" where
  "feature_collection fs = JObj [(''type'', JStr ''FeatureCollection''), (''features'', JArr fs)]"

text \<open>Lines 236 to 242.\<close>

definition write_output :: "world \<Rightarrow> string \<Rightarrow> loop_state \<Rightarrow> outcome \<times> event list" where
  "write_output w geojson_path s =
     (if \<not> can_write w geojson_path then (Raised OSError, events s)
      else
        let t1 = events s @
                   [Ev_write geojson_path (feature_collection (features s)),
                    Ev_print (''Wrote '' @ str_nat (length (features s)) @
                              '' features to '' @ geojson_path)]
        in (Returned,
            if limit_reached s then
              t1 @ [Ev_print (''API request limit reached ('' @ str_nat (request_count s) @
                              '' requests, max '' @ str_nat API_REQUEST_LIMIT @
                              ''). Remaining rows have no location data.'')]
            else t1))"

definition initial_state :: "event list \<Rightarrow> loop_state" where
  "initial_state t = \<lparr>features = [], request_count = 0, limit_reached = False, events = t\<rparr>"

definition main :: "world \<Rightarrow> outcome \<times> event list" where
  "main w =
     (case ask_input_csv_path w [] of
        (None, t1) \<Rightarrow> (Returned, t1 @ [Ev_print ''No input file selected. Exiting.''])
      | (Some csv_path, t1) \<Rightarrow>
     (case ask_output_geojson_path w t1 of
        (None, t2) \<Rightarrow> (Returned, t2 @ [Ev_print ''No output file selected. Exiting.''])
      | (Some geojson_path, t2) \<Rightarrow>
     (case get_api_key w t2 of
        (Inl e, t3) \<Rightarrow> (Raised e, t3)
      | (Inr api_key, t3) \<Rightarrow>
     (let now_iso = utc_now w; t4 = t3 @ [Ev_clock]
      in case read_rows w csv_path t4 of
           (Inl e, t5) \<Rightarrow> (Raised e, t5)
         | (Inr rows, t5) \<Rightarrow>
     (case enrich w api_key now_iso 0 rows (initial_state t5) of
        Inl (e, t6) \<Rightarrow> (Raised e, t6)
      | Inr s \<Rightarrow> write_output w geojson_path s)))))"

section \<open>Reading the output\<close>

text \<open>The value under a path of keys in a document, \<^verbatim>\<open>None\<close> where the path leaves it.\<close>

fun json_path :: "json \<Rightarrow> string list \<Rightarrow> json" where
  "json_path v [] = v"
| "json_path (JObj kvs) (k # ks) = json_path (dict_get kvs k) ks"
| "json_path v (k # ks) = JNull"

text \<open>The trace of a loop result, and the events the loop itself produces.\<close>

definition events_of :: "(py_error \<times> event list) + loop_state \<Rightarrow> event list" where
  "events_of r = (case r of Inl (e, t) \<Rightarrow> t | Inr s \<Rightarrow> events s)"

fun loop_event :: "event \<Rightarrow> bool" where
  "loop_event (Ev_print m) = True"
| "loop_event (Ev_http r) = True"
| "loop_event Ev_sleep = True"
| "loop_event _ = False"

text \<open>
  The request budget, relative to the number \<open>b\<close> of requests in the trace when the loop
  starts: the counter is within the limit and no more requests have gone out than it counts.
\<close>

definition within_budget :: "nat \<Rightarrow> (py_error \<times> event list) + loop_state \<Rightarrow> bool" where
  "within_budget b r =
     (case r of
        Inl (e, t) \<Rightarrow> http_count t \<le> b + API_REQUEST_LIMIT
      | Inr s \<Rightarrow> request_count s \<le> API_REQUEST_LIMIT \<and>
                 http_count (events s) \<le> b + request_count s)"

section \<open>Example runs\<close>

text \<open>
  A small world: the file has a row with a title and a place URL, a row whose title is
  a no-break space (U+00A0) followed by a space and whose URL is empty, and a row with a
  title only; the service answers the first request with one candidate and every later
  request with a located place, which as an answer to a Find Place request has no
  candidates.
\<close>

definition row_cafe :: row where
  "row_cafe = [''Title'' \<mapsto> ''Cafe'',
               ''URL'' \<mapsto> ''https://www.google.com/maps/place/Westdam+59/data=!4m2'']"

definition row_blank :: row where
  "row_blank = [''Title'' \<mapsto> [CHR 0xC2, CHR 0xA0, CHR '' ''],
                ''URL'' \<mapsto> []]"

definition row_bar :: row where
  "row_bar = [''Title'' \<mapsto> ''Bar'']"

definition find_ok :: json where
  "find_ok = JObj [(''candidates'', JArr [JObj [(''place_id'', JStr ''P1'')]]),
                   (''status'', JStr ''OK'')]"

definition details_ok :: json where
  "details_ok =
     JObj [(''result'',
            JObj [(''formatted_address'', JStr ''Westdam 59, NL''),
                  (''geometry'',
                   JObj [(''location'', JObj [(''lat'', JFloat (521 / 10)), (''lng'', JInt 4)])]),
                  (''name'', JStr ''W59'')]),
           (''status'', JStr ''OK'')]"

definition example_world :: world where
  "example_world =
     \<lparr>open_dialog = ''in.csv'', save_dialog = ''out.json'',
      environ = [''GOOGLE_PLACES_API_KEY'' \<mapsto> ''k''],
      utc_now = ''2024-01-01T00:00:00Z'',
      csv_file = (\<lambda>p. Inr [row_cafe, row_blank, row_bar]),
      http_get = (\<lambda>n req. if n = 0 then Http_json find_ok else Http_json details_ok),
      can_write = (\<lambda>p. True)\<rparr>"

text \<open>The loop variables one request before the limit, and at the limit.\<close>

definition state_999 :: loop_state where
  "state_999 = \<lparr>features = [], request_count = 999, limit_reached = False, events = []\<rparr>"

definition state_1000 :: loop_state where
  "state_1000 = \<lparr>features = [], request_count = 1000, limit_reached = False, events = []\<rparr>"

text \<open>
  Answers of the details service: the located place as a record, a world in which every
  request gets the same body, and bodies that lack one field each.
\<close>

definition details_demo :: details where
  "details_demo = \<lparr>lat = JFloat (521 / 10), lng = JInt 4, address = JStr ''Westdam 59, NL'',
                    name = JStr ''W59'', country_code = JNull\<rparr>"









text \<open>The features of the example run: the first row located, the third row not.\<close>

definition example_features :: "json list" where
  "example_features =
     [build_feature row_cafe (Some details_demo) ''2024-01-01T00:00:00Z'',
      build_feature row_bar None ''2024-01-01T00:00:00Z'']"

text \<open>The loop variables after the first row of the example has been located.\<close>

definition state_located :: loop_state where
  "state_located =
     \<lparr>features = [], request_count = 2, limit_reached = False,
      events = [Ev_print ''Processing: Cafe'',
                Ev_http (find_place_request ''k'' ''Westdam 59''),
                Ev_sleep,
                Ev_http (place_details_request ''k'' (JStr ''P1''))]\<rparr>"

section \<open>What the functions add to the trace\<close>

lemma find_place_id_events:
  "snd (find_place_id w k ti u t) =
     t @ (if place_query ti u = [] then []
          else [Ev_http (find_place_request k (place_query ti u))])"
  by (simp add: find_place_id_def requests_get_def Let_def split: response.split)

lemma get_place_details_events:
  "snd (get_place_details w k p t) = t @ [Ev_http (place_details_request k p)]"
  by (simp add: get_place_details_def requests_get_def split: response.split)

lemma http_count_append [simp]: "http_count (a @ b) = http_count a + http_count b"
  by (simp add: http_count_def)

lemma http_count_Nil [simp]: "http_count [] = 0"
  by (simp add: http_count_def)

lemma http_count_Cons [simp]: "http_count (e # t) = (if is_http e then 1 else 0) + http_count t"
  by (simp add: http_count_def)

lemma lookup_row_unfold:
  "lookup_row w k ti u s =
     (if request_count s < API_REQUEST_LIMIT then
        (let t1 = events s @ (if place_query ti u = [] then []
                              else [Ev_http (find_place_request k (place_query ti u))])
         in case fst (find_place_id w k ti u (events s)) of
              Inl e \<Rightarrow> Inl (e, t1)
            | Inr pid \<Rightarrow>
                if truthy pid \<and> request_count s + 1 < API_REQUEST_LIMIT then
                  (let t2 = t1 @ [Ev_sleep, Ev_http (place_details_request k pid)]
                   in case fst (get_place_details w k pid (t1 @ [Ev_sleep])) of
                        Inl e \<Rightarrow> Inl (e, t2)
                      | Inr d \<Rightarrow>
                          Inr (d, s\<lparr>request_count := request_count s + 2, events := t2\<rparr>))
                else Inr (None, s\<lparr>request_count := request_count s + 1,
                                   limit_reached := (limit_reached s \<or> truthy pid),
                                   events := t1\<rparr>))
      else Inr (None, s\<lparr>limit_reached := True\<rparr>))"
proof -
  obtain r1 t1 where f: "find_place_id w k ti u (events s) = (r1, t1)"
    by (cases "find_place_id w k ti u (events s)")
  have t1: "t1 = events s @ (if place_query ti u = [] then []
          else [Ev_http (find_place_request k (place_query ti u))])"
    using find_place_id_events [of w k ti u "events s"] f by simp
  show ?thesis
  proof (cases r1)
    case (Inl e)
    then show ?thesis using f t1 by (simp add: lookup_row_def)
  next
    case (Inr pid)
    obtain r2 t2 where g: "get_place_details w k pid (t1 @ [Ev_sleep]) = (r2, t2)"
      by (cases "get_place_details w k pid (t1 @ [Ev_sleep])")
    have t2: "t2 = t1 @ [Ev_sleep, Ev_http (place_details_request k pid)]"
      using get_place_details_events [of w k pid "t1 @ [Ev_sleep]"] g by simp
    show ?thesis
    proof (cases r2)
      case (Inl e)
      then show ?thesis using f Inr g t1 t2 by (simp add: lookup_row_def Let_def)
    next
      case (Inr d)
      then show ?thesis using f \<open>r1 = Inr pid\<close> g t1 t2
        by (cases s) (simp add: lookup_row_def Let_def)
    qed
  qed
qed

lemma lookup_row_events:
  "lookup_row w k ti u s = Inl (e, t) \<Longrightarrow> \<exists>ex. t = events s @ ex \<and> list_all loop_event ex"
  "lookup_row w k ti u s = Inr (d, s') \<Longrightarrow> \<exists>ex. events s' = events s @ ex \<and> list_all loop_event ex"
  by (auto simp: lookup_row_unfold Let_def split: if_splits sum.splits)

lemma lookup_row_budget:
  assumes "request_count s \<le> API_REQUEST_LIMIT" "http_count (events s) \<le> b + request_count s"
  shows "lookup_row w k ti u s = Inl (e, t) \<Longrightarrow> http_count t \<le> b + API_REQUEST_LIMIT"
    and "lookup_row w k ti u s = Inr (d, s') \<Longrightarrow>
           request_count s' \<le> API_REQUEST_LIMIT \<and> http_count (events s') \<le> b + request_count s'"
  using assms
  by (auto simp: lookup_row_unfold Let_def split: if_splits sum.splits)


lemma process_row_after_lookup:
  "lookup_row w k (row_field r ''Title'') (row_field r ''URL'')
     (s\<lparr>events := events s @
         [Ev_print (processing_message (row_field r ''Title'') (row_field r ''URL''))]\<rparr>) =
     Inr (dets, s1) \<Longrightarrow>
   process_row w k now i r s =
     Inr (s1\<lparr>events := events s1 @ (if dets = None \<and> 0 < i then [Ev_sleep] else []),
             features := features s1 @ [build_feature r dets now]\<rparr>)"
  by (cases s1) (simp add: process_row_def Let_def)

lemma process_row_abort:
  "lookup_row w k (row_field r ''Title'') (row_field r ''URL'')
     (s\<lparr>events := events s @
         [Ev_print (processing_message (row_field r ''Title'') (row_field r ''URL''))]\<rparr>) =
     Inl x \<Longrightarrow>
   process_row w k now i r s = Inl x"
  by (simp add: process_row_def Let_def)

lemma process_row_events:
  "\<exists>ex. events_of (process_row w k now i r s) = events s @ ex \<and> list_all loop_event ex"
proof (cases "lookup_row w k (row_field r ''Title'') (row_field r ''URL'')
        (s\<lparr>events := events s @
           [Ev_print (processing_message (row_field r ''Title'') (row_field r ''URL''))]\<rparr>)")
  case (Inl x)
  obtain e t where x: "x = (e, t)" by (cases x)
  from lookup_row_events(1) [OF Inl [unfolded x]] show ?thesis
    using process_row_abort [OF Inl] x by (auto simp: events_of_def)
next
  case (Inr y)
  obtain d s1 where y: "y = (d, s1)" by (cases y)
  from lookup_row_events(2) [OF Inr [unfolded y]] show ?thesis
    using process_row_after_lookup [OF Inr [unfolded y]] by (auto simp: events_of_def)
qed

lemma process_row_budget:
  assumes "within_budget b (Inr s)"
  shows "within_budget b (process_row w k now i r s)"
proof -
  let ?s0 = "s\<lparr>events := events s @
           [Ev_print (processing_message (row_field r ''Title'') (row_field r ''URL''))]\<rparr>"
  have a: "request_count ?s0 \<le> API_REQUEST_LIMIT"
    and b: "http_count (events ?s0) \<le> b + request_count ?s0"
    using assms by (simp_all add: within_budget_def)
  show ?thesis
  proof (cases "lookup_row w k (row_field r ''Title'') (row_field r ''URL'') ?s0")
    case (Inl x)
    obtain e t where x: "x = (e, t)" by (cases x)
    from lookup_row_budget(1) [OF a b Inl [unfolded x]] show ?thesis
      using process_row_abort [OF Inl] x by (simp add: within_budget_def)
  next
    case (Inr y)
    obtain d s1 where y: "y = (d, s1)" by (cases y)
    from lookup_row_budget(2) [OF a b Inr [unfolded y]] show ?thesis
      using process_row_after_lookup [OF Inr [unfolded y]] by (simp add: within_budget_def)
  qed
qed

lemma process_row_features:
  "process_row w k now i r s = Inr s' \<Longrightarrow> \<exists>d. features s' = features s @ [build_feature r d now]"
  by (auto simp: process_row_def Let_def lookup_row_unfold split: sum.splits if_splits)

lemma enrich_events:
  "\<exists>ex. events_of (enrich w k now i rows s) = events s @ ex \<and> list_all loop_event ex"
proof (induction rows arbitrary: i s)
  case Nil
  show ?case by (simp add: events_of_def)
next
  case (Cons r rows)
  obtain ex where ex: "events_of (process_row w k now i r s) = events s @ ex" "list_all loop_event ex"
    using process_row_events by blast
  show ?case
  proof (cases "process_row w k now i r s")
    case (Inl x)
    then show ?thesis using ex by auto
  next
    case (Inr s')
    obtain ex' where "events_of (enrich w k now (Suc i) rows s') = events s' @ ex'" "list_all loop_event ex'"
      using Cons.IH by blast
    then show ?thesis using Inr ex by (auto simp: events_of_def)
  qed
qed

lemma enrich_budget:
  "within_budget b (Inr s) \<Longrightarrow> within_budget b (enrich w k now i rows s)"
proof (induction rows arbitrary: i s)
  case Nil
  then show ?case by simp
next
  case (Cons r rows)
  have p: "within_budget b (process_row w k now i r s)"
    using Cons.prems by (rule process_row_budget)
  show ?case
  proof (cases "process_row w k now i r s")
    case (Inl x)
    then show ?thesis using p by simp
  next
    case (Inr s')
    then show ?thesis using p Cons.IH [of s' "Suc i"] by simp
  qed
qed

lemma enrich_features:
  "enrich w k now i rows s = Inr s' \<Longrightarrow>
     \<exists>fs. features s' = features s @ fs \<and>
          list_all2 (\<lambda>r f. \<exists>d. f = build_feature r d now) rows fs"
proof (induction rows arbitrary: i s)
  case Nil
  then show ?case by simp
next
  case (Cons r rows)
  from Cons.prems obtain s1 where
    p: "process_row w k now i r s = Inr s1" and e: "enrich w k now (Suc i) rows s1 = Inr s'"
    by (auto split: sum.splits)
  from process_row_features [OF p] obtain d where d: "features s1 = features s @ [build_feature r d now]"
    by blast
  from Cons.IH [OF e] obtain fs where
    fs: "features s' = features s1 @ fs" "list_all2 (\<lambda>r f. \<exists>d. f = build_feature r d now) rows fs"
    by blast
  have "features s' = features s @ (build_feature r d now # fs)" using d fs by simp
  moreover have "list_all2 (\<lambda>r f. \<exists>d. f = build_feature r d now) (r # rows) (build_feature r d now # fs)"
    using fs by auto
  ultimately show ?case by blast
qed

section \<open>The trace of \<^verbatim>\<open>main\<close>\<close>

lemma get_api_key_events:
  "snd (get_api_key w t) = t @ [Ev_getenv ''GOOGLE_PLACES_API_KEY''] \<or>
   snd (get_api_key w t) =
     t @ [Ev_getenv ''GOOGLE_PLACES_API_KEY'', Ev_getenv ''GOOGLE_MAPS_API_KEY'']"
  by (simp add: get_api_key_def Let_def split: option.split)

lemma main_cancel_input:
  "open_dialog w = [] \<Longrightarrow>
     main w = (Returned, [Ev_open_dialog, Ev_print ''No input file selected. Exiting.''])"
  by (simp add: main_def ask_input_csv_path_def)

lemma main_cancel_output:
  "open_dialog w \<noteq> [] \<Longrightarrow> save_dialog w = [] \<Longrightarrow>
     main w = (Returned, [Ev_open_dialog, Ev_save_dialog,
                          Ev_print ''No output file selected. Exiting.''])"
  by (simp add: main_def ask_input_csv_path_def ask_output_geojson_path_def)

lemma main_chosen:
  assumes "open_dialog w \<noteq> []" "save_dialog w \<noteq> []"
  shows "main w =
     (case fst (get_api_key w [Ev_open_dialog, Ev_save_dialog]) of
        Inl e \<Rightarrow> (Raised e, snd (get_api_key w [Ev_open_dialog, Ev_save_dialog]))
      | Inr api_key \<Rightarrow>
          (let t5 = snd (get_api_key w [Ev_open_dialog, Ev_save_dialog]) @
                      [Ev_clock, Ev_read_csv (open_dialog w)]
           in case csv_file w (open_dialog w) of
                Inl e \<Rightarrow> (Raised e, t5)
              | Inr rows \<Rightarrow>
                  (case enrich w api_key (utc_now w) 0 (filter keep_row rows) (initial_state t5) of
                     Inl x \<Rightarrow> (Raised (fst x), snd x)
                   | Inr s \<Rightarrow> write_output w (save_dialog w) s)))"
  using assms
  by (cases "get_api_key w [Ev_open_dialog, Ev_save_dialog]")
     (auto simp: main_def ask_input_csv_path_def ask_output_geojson_path_def read_rows_def
        Let_def split: sum.splits prod.splits)

lemma write_output_events:
  "\<exists>ex. snd (write_output w p s) = events s @ ex \<and> http_count ex = 0"
  by (simp add: write_output_def Let_def)

lemma initial_state_simps [simp]:
  "features (initial_state t) = []" "request_count (initial_state t) = 0"
  "limit_reached (initial_state t) = False" "events (initial_state t) = t"
  by (simp_all add: initial_state_def)

lemma main_http_count: "http_count (snd (main w)) \<le> API_REQUEST_LIMIT"
proof (cases "open_dialog w = [] \<or> save_dialog w = []")
  case True
  then show ?thesis
    by (cases "open_dialog w = []") (auto simp: main_cancel_input main_cancel_output)
next
  case False
  then have c: "open_dialog w \<noteq> []" "save_dialog w \<noteq> []" by simp_all
  let ?t3 = "snd (get_api_key w [Ev_open_dialog, Ev_save_dialog])"
  let ?t5 = "?t3 @ [Ev_clock, Ev_read_csv (open_dialog w)]"
  have t3: "http_count ?t3 = 0"
    using get_api_key_events [of w "[Ev_open_dialog, Ev_save_dialog]"] by auto
  then have t5: "http_count ?t5 = 0" by simp
  have inv: "\<And>k rows. within_budget 0 (enrich w k (utc_now w) 0 rows (initial_state ?t5))"
    by (rule enrich_budget) (simp add: within_budget_def t3)
  show ?thesis
  proof (cases "fst (get_api_key w [Ev_open_dialog, Ev_save_dialog])")
    case (Inl e)
    then show ?thesis using t3 by (simp add: main_chosen [OF c])
  next
    case (Inr k)
    show ?thesis
    proof (cases "csv_file w (open_dialog w)")
      case (Inl e)
      then show ?thesis using Inr t3 by (simp add: main_chosen [OF c] Let_def)
    next
      case rows: (Inr rows)
      show ?thesis
      proof (cases "enrich w k (utc_now w) 0 (filter keep_row rows) (initial_state ?t5)")
        case (Inl x)
        then show ?thesis using Inr rows inv [of k "filter keep_row rows"]
          by (cases x) (simp add: main_chosen [OF c] Let_def within_budget_def)
      next
        case s: (Inr s)
        obtain ex where "snd (write_output w (save_dialog w) s) = events s @ ex" "http_count ex = 0"
          using write_output_events by blast
        then show ?thesis using Inr rows s inv [of k "filter keep_row rows"]
          by (simp add: main_chosen [OF c] Let_def within_budget_def)
      qed
    qed
  qed
qed

lemma main_trace_prefix:
  assumes "open_dialog w \<noteq> []" "save_dialog w \<noteq> []"
  shows "\<exists>rest. snd (main w) = snd (get_api_key w [Ev_open_dialog, Ev_save_dialog]) @ rest"
proof -
  let ?t3 = "snd (get_api_key w [Ev_open_dialog, Ev_save_dialog])"
  let ?t5 = "?t3 @ [Ev_clock, Ev_read_csv (open_dialog w)]"
  show ?thesis
  proof (cases "fst (get_api_key w [Ev_open_dialog, Ev_save_dialog])")
    case (Inl e)
    then show ?thesis by (simp add: main_chosen [OF assms])
  next
    case (Inr k)
    show ?thesis
    proof (cases "csv_file w (open_dialog w)")
      case (Inl e)
      then show ?thesis using Inr by (simp add: main_chosen [OF assms] Let_def)
    next
      case rows: (Inr rows)
      obtain ex where ex: "events_of (enrich w k (utc_now w) 0 (filter keep_row rows) (initial_state ?t5)) = ?t5 @ ex"
        using enrich_events [of w k "utc_now w" 0 "filter keep_row rows" "initial_state ?t5"] by auto
      show ?thesis
      proof (cases "enrich w k (utc_now w) 0 (filter keep_row rows) (initial_state ?t5)")
        case (Inl x)
        then show ?thesis using Inr rows ex
          by (cases x) (simp add: main_chosen [OF assms] Let_def events_of_def)
      next
        case s: (Inr s)
        obtain ex' where "snd (write_output w (save_dialog w) s) = events s @ ex'"
          using write_output_events by blast
        then show ?thesis using Inr rows s ex
          by (simp add: main_chosen [OF assms] Let_def events_of_def)
      qed
    qed
  qed
qed

section \<open>The shape of a feature\<close>

lemma build_feature_None:
  "build_feature r None now =
     JObj [(''type'', JStr ''Feature''),
           (''geometry'', JObj [(''type'', JStr ''Point''), (''coordinates'', JArr [JInt 0, JInt 0])]),
           (''properties'',
            JObj ([(''date'', JStr now), (''google_maps_url'', JStr (row_field r ''URL'')),
                   (''Comment'', JStr ''No location information is available for this saved place'')] @
                  (if row_field r ''Title'' \<noteq> [] then [(''name'', JStr (row_field r ''Title''))]
                   else [])))]"
  by (simp add: build_feature_def Let_def)

lemma build_feature_Some:
  "build_feature r (Some d) now =
     JObj [(''type'', JStr ''Feature''),
           (''geometry'', JObj [(''type'', JStr ''Point''), (''coordinates'', JArr [lng d, lat d])]),
           (''properties'',
            JObj [(''date'', JStr now),
                  (''google_maps_url'',
                     JStr (if row_field r ''URL'' \<noteq> [] then row_field r ''URL''
                           else ''http://maps.google.com/?q='' @ quote_plus (row_field r ''Title''))),
                  (''name'', py_or (name d) (JStr (row_field r ''Title''))),
                  (''location'',
                     JObj ((''address'', address d) #
                           (if truthy (country_code d)
                            then [(''country_code'', country_code d)] else [])))])]"
  by (simp add: build_feature_def Let_def)

lemma lookup_row_exhausted:
  "API_REQUEST_LIMIT \<le> request_count s \<Longrightarrow>
     lookup_row w k ti u s = Inr (None, s\<lparr>limit_reached := True\<rparr>)"
  by (simp add: lookup_row_def)

section \<open>What \<^verbatim>\<open>get_place_details\<close> returns\<close>








lemma attr_get_Inr: "attr_get v k = Inr x \<Longrightarrow> \<exists>kvs. v = JObj kvs \<and> x = dict_get kvs k"
  by (cases v) auto

lemma subscript_key_Inr:
  "subscript_key v k = Inr x \<Longrightarrow> \<exists>kvs. v = JObj kvs \<and> map_of kvs k = Some x"
  by (cases v) (auto split: option.splits)

lemma dict_get_JObj: "dict_get kvs k = JObj x \<Longrightarrow> map_of kvs k = Some (JObj x)"
  by (auto simp: dict_get_def split: option.splits)

lemma details_Some_shape:
  assumes "get_place_details_result data = Inr (Some d)"
  shows "\<exists>b res g l.
           data = JObj b \<and> dict_get b ''status'' = JStr ''OK'' \<and>
           map_of b ''result'' = Some (JObj res) \<and>
           map_of res ''geometry'' = Some (JObj g) \<and>
           map_of g ''location'' = Some (JObj l) \<and>
           lat d = dict_get l ''lat'' \<and> lng d = dict_get l ''lng'' \<and>
           lat d \<noteq> JNull \<and> lng d \<noteq> JNull \<and>
           address d = py_or (dict_get res ''formatted_address'') (JStr []) \<and>
           name d = py_or (dict_get res ''name'') (JStr [])"
proof -
  obtain b where b: "data = JObj b"
    using assms by (cases data) (simp_all add: get_place_details_result_def)
  have st: "dict_get b ''status'' = JStr ''OK''"
    using assms b by (auto simp: get_place_details_result_def split: if_splits)
  define result where "result = (case map_of b ''result'' of None \<Rightarrow> JObj [] | Some v \<Rightarrow> v)"
  have r1: "attr_get_default data ''result'' (JObj []) = Inr result"
    using b by (simp add: result_def)
  have rest: "(case attr_get result ''geometry'' of
        Inl e \<Rightarrow> Inl e
      | Inr geom \<Rightarrow>
     if \<not> truthy geom then Inr None
     else
     (case str_in ''location'' geom of
        Inl e \<Rightarrow> Inl e
      | Inr has_location \<Rightarrow>
     if \<not> has_location then Inr None
     else
     (case subscript_key geom ''location'' of
        Inl e \<Rightarrow> Inl e
      | Inr location \<Rightarrow>
     (case attr_get location ''lat'' of
        Inl e \<Rightarrow> Inl e
      | Inr lat_v \<Rightarrow>
     (case attr_get location ''lng'' of
        Inl e \<Rightarrow> Inl e
      | Inr lng_v \<Rightarrow>
     if lat_v = JNull \<or> lng_v = JNull then Inr None
     else
     (case attr_get result ''formatted_address'' of
        Inl e \<Rightarrow> Inl e
      | Inr fa \<Rightarrow>
     (case attr_get result ''name'' of
        Inl e \<Rightarrow> Inl e
      | Inr nm \<Rightarrow>
     (case attr_get result ''address_components'' of
        Inl e \<Rightarrow> Inl e
      | Inr comps \<Rightarrow>
     (case py_iter (py_or comps (JArr [])) of
        Inl e \<Rightarrow> Inl e
      | Inr items \<Rightarrow>
     (case country_loop items of
        Inl e \<Rightarrow> Inl e
      | Inr cc \<Rightarrow>
          Inr (Some \<lparr>lat = lat_v, lng = lng_v,
                     address = py_or fa (JStr []), name = py_or nm (JStr []),
                     country_code = cc\<rparr>))))))))))) = Inr (Some d)"
    using assms st unfolding get_place_details_result_def b result_def by simp
  then obtain geom where g1: "attr_get result ''geometry'' = Inr geom"
    by (cases "attr_get result ''geometry''") simp_all
  then obtain res where res: "result = JObj res" "geom = dict_get res ''geometry''"
    using attr_get_Inr by blast
  have tg: "truthy geom" using rest g1 by (auto split: if_splits)
  obtain loc where l1: "subscript_key geom ''location'' = Inr loc"
    using rest g1 tg by (auto split: sum.splits if_splits)
  then obtain g where g: "geom = JObj g" "map_of g ''location'' = Some loc"
    using subscript_key_Inr by blast
  obtain lat_v where la: "attr_get loc ''lat'' = Inr lat_v"
    using rest g1 tg l1 by (auto split: sum.splits if_splits)
  then obtain l where l: "loc = JObj l" "lat_v = dict_get l ''lat''"
    using attr_get_Inr by blast
  have mres: "map_of b ''result'' = Some (JObj res)"
  proof (cases "map_of b ''result''")
    case None
    then have "result = JObj []" by (simp add: result_def)
    then show ?thesis using tg res by (simp add: dict_get_def)
  next
    case (Some v)
    then show ?thesis using res by (simp add: result_def)
  qed
  have "dict_get res ''geometry'' = JObj g"
    using res g by simp
  then have mgeo: "map_of res ''geometry'' = Some (JObj g)"
    by (rule dict_get_JObj)
  have fin: "lat d = dict_get l ''lat'' \<and> lng d = dict_get l ''lng'' \<and>
           lat d \<noteq> JNull \<and> lng d \<noteq> JNull \<and>
           address d = py_or (dict_get res ''formatted_address'') (JStr []) \<and>
           name d = py_or (dict_get res ''name'') (JStr [])"
    using rest g1 tg l1 l res g la
    by (auto split: sum.splits if_splits)
  show ?thesis using b st mres mgeo g l fin by blast
qed

lemma get_place_details_Inr:
  "fst (get_place_details w k p t) = Inr x \<Longrightarrow>
     \<exists>data. http_get w (http_count t) (place_details_request k p) = Http_json data \<and>
            get_place_details_result data = Inr x"
  by (cases "http_get w (http_count t) (place_details_request k p)")
     (simp_all add: get_place_details_def requests_get_def)

lemma find_place_id_truthy:
  assumes "fst (find_place_id w k ti u t) = Inr pid" "truthy pid"
  shows "place_query ti u \<noteq> [] \<and>
         (\<exists>fbody. http_get w (http_count t) (find_place_request k (place_query ti u)) =
                    Http_json fbody \<and>
                  find_place_id_result fbody = Inr pid)"
proof -
  have q: "place_query ti u \<noteq> []"
    using assms by (auto simp: find_place_id_def Let_def)
  then show ?thesis
    using assms(1)
    by (cases "http_get w (http_count t) (find_place_request k (place_query ti u))")
       (simp_all add: find_place_id_def Let_def requests_get_def)
qed

lemma lookup_row_Some:
  assumes "lookup_row w k ti u s = Inr (Some d, s1)"
  shows "\<exists>pid. fst (find_place_id w k ti u (events s)) = Inr pid \<and> truthy pid \<and>
           fst (get_place_details w k pid
                  (events s @ [Ev_http (find_place_request k (place_query ti u)), Ev_sleep])) =
             Inr (Some d)"
proof -
  from assms obtain pid where
    p: "fst (find_place_id w k ti u (events s)) = Inr pid" "truthy pid"
      "fst (get_place_details w k pid
         ((events s @ (if place_query ti u = [] then []
                       else [Ev_http (find_place_request k (place_query ti u))])) @
          [Ev_sleep])) = Inr (Some d)"
    by (auto simp: lookup_row_unfold Let_def split: if_splits sum.splits)
  from find_place_id_truthy [OF p(1,2)] have "place_query ti u \<noteq> []" by simp
  with p show ?thesis by auto
qed

section \<open>The first row of the example\<close>

lemma row_cafe_fields:
  "row_field row_cafe ''Title'' = ''Cafe''"
  "row_field row_cafe ''URL'' = ''https://www.google.com/maps/place/Westdam+59/data=!4m2''"
  by code_simp+

lemma row_blank_dropped: "\<not> keep_row row_blank"
  by code_simp

lemma concat_utf8_chars: "concat (utf8_chars s) = s"
  by (induction s rule: utf8_chars.induct) auto

lemma cafe_query:
  "place_query ''Cafe'' ''https://www.google.com/maps/place/Westdam+59/data=!4m2'' = ''Westdam 59''"
  by code_simp

section \<open>What \<^verbatim>\<open>main\<close> writes\<close>

lemma writes_append: "writes (a @ b) = writes a @ writes b"
  by (induction a rule: writes.induct) simp_all

lemma writes_loop_events: "list_all loop_event ex \<Longrightarrow> writes ex = []"
  by (induction ex rule: writes.induct) simp_all

lemma clock_loop_events: "list_all loop_event ex \<Longrightarrow> count_list ex Ev_clock = 0"
  by (induction ex) auto

lemma count_list_append_clock:
  "count_list (a @ b) Ev_clock = count_list a Ev_clock + count_list b Ev_clock"
  by (induction a) auto

lemma main_cases [case_names cancel_input cancel_output no_key no_rows aborted finished]:
  fixes w :: world
  defines "t3 \<equiv> snd (get_api_key w [Ev_open_dialog, Ev_save_dialog])"
  defines "t5 \<equiv> snd (get_api_key w [Ev_open_dialog, Ev_save_dialog]) @
                   [Ev_clock, Ev_read_csv (open_dialog w)]"
  obtains
    "open_dialog w = []"
    "main w = (Returned, [Ev_open_dialog, Ev_print ''No input file selected. Exiting.''])"
  | "save_dialog w = []"
    "main w = (Returned, [Ev_open_dialog, Ev_save_dialog,
                          Ev_print ''No output file selected. Exiting.''])"
  | e where "main w = (Raised e, t3)"
  | e where "main w = (Raised e, t5)"
  | e ex where "main w = (Raised e, t5 @ ex)" "list_all loop_event ex"
  | k rows s ex where "open_dialog w \<noteq> []" "save_dialog w \<noteq> []"
      "csv_file w (open_dialog w) = Inr rows"
      "enrich w k (utc_now w) 0 (filter keep_row rows) (initial_state t5) = Inr s"
      "events s = t5 @ ex" "list_all loop_event ex"
      "main w = write_output w (save_dialog w) s"
proof (cases "open_dialog w = [] \<or> save_dialog w = []")
  case True
  then show ?thesis
    using that(1,2) main_cancel_input [of w] main_cancel_output [of w] by blast
next
  case False
  then have c: "open_dialog w \<noteq> []" "save_dialog w \<noteq> []" by simp_all
  show ?thesis
  proof (cases "fst (get_api_key w [Ev_open_dialog, Ev_save_dialog])")
    case (Inl e)
    then have "main w = (Raised e, t3)" by (simp add: main_chosen [OF c] t3_def)
    then show ?thesis by (rule that(3))
  next
    case (Inr k)
    show ?thesis
    proof (cases "csv_file w (open_dialog w)")
      case (Inl e)
      then have "main w = (Raised e, t5)"
        using Inr by (simp add: main_chosen [OF c] Let_def t5_def)
      then show ?thesis by (rule that(4))
    next
      case rows: (Inr rows)
      obtain ex where ex:
        "events_of (enrich w k (utc_now w) 0 (filter keep_row rows) (initial_state t5)) = t5 @ ex"
        "list_all loop_event ex"
        using enrich_events [of w k "utc_now w" 0 "filter keep_row rows" "initial_state t5"]
        by auto
      show ?thesis
      proof (cases "enrich w k (utc_now w) 0 (filter keep_row rows) (initial_state t5)")
        case (Inl x)
        then have "main w = (Raised (fst x), t5 @ ex)"
          using Inr rows ex(1)
          by (cases x) (simp add: main_chosen [OF c] Let_def events_of_def t5_def)
        then show ?thesis using ex(2) by (rule that(5))
      next
        case s: (Inr s)
        have "main w = write_output w (save_dialog w) s"
          using Inr rows s by (simp add: main_chosen [OF c] Let_def t5_def)
        moreover have "events s = t5 @ ex" using ex(1) s by (simp add: events_of_def)
        ultimately show ?thesis using that(6) [OF c rows s _ ex(2)] by blast
      qed
    qed
  qed
qed

lemma writes_api_key: "writes (snd (get_api_key w [Ev_open_dialog, Ev_save_dialog])) = []"
  using get_api_key_events [of w "[Ev_open_dialog, Ev_save_dialog]"] by auto

lemma writes_write_output:
  "writes (snd (write_output w p s)) =
     writes (events s) @ (if can_write w p then [(p, feature_collection (features s))] else [])"
  by (simp add: write_output_def Let_def writes_append)

lemma fst_write_output: "fst (write_output w p s) = (if can_write w p then Returned else Raised OSError)"
  by (simp add: write_output_def Let_def)

lemma main_writes:
  "writes (snd (main w)) = [] \<and> (fst (main w) \<noteq> Returned \<or> open_dialog w = [] \<or> save_dialog w = []) \<or>
   (\<exists>k t rows s. csv_file w (open_dialog w) = Inr rows \<and>
      enrich w k (utc_now w) 0 (filter keep_row rows) (initial_state t) = Inr s \<and>
      writes (snd (main w)) = [(save_dialog w, feature_collection (features s))])"
proof (cases w rule: main_cases)
  case cancel_input
  then show ?thesis by simp
next
  case cancel_output
  then show ?thesis by simp
next
  case (no_key e)
  then show ?thesis by (simp add: writes_api_key)
next
  case (no_rows e)
  then show ?thesis by (simp add: writes_api_key writes_append)
next
  case (aborted e ex)
  then show ?thesis by (simp add: writes_api_key writes_append writes_loop_events)
next
  case (finished k rows s ex)
  have "writes (events s) = []"
    using finished(5,6) by (simp add: writes_api_key writes_append writes_loop_events)
  then have w: "writes (snd (main w)) =
      (if can_write w (save_dialog w) then [(save_dialog w, feature_collection (features s))] else [])"
    using finished(7) by (simp add: writes_write_output)
  show ?thesis
  proof (cases "can_write w (save_dialog w)")
    case True
    then show ?thesis using w finished(3,4) by auto
  next
    case False
    then show ?thesis using w finished(7) by (simp add: fst_write_output)
  qed
qed

lemma build_feature_date:
  "json_path (build_feature r dets now) [''properties'', ''date''] = JStr now"
  by (cases dets) (simp_all add: build_feature_None build_feature_Some dict_get_def)

lemma list_all2_built_date:
  "list_all2 (\<lambda>r f. \<exists>d. f = build_feature r d now) rows fs \<Longrightarrow>
     list_all (\<lambda>f. json_path f [''properties'', ''date''] = JStr now) fs"
  by (induction rows fs rule: list_all2_induct) (auto simp: build_feature_date)

lemma main_written_features:
  assumes "(p, doc) \<in> set (writes (snd (main w)))"
  shows "\<exists>rows fs. csv_file w (open_dialog w) = Inr rows \<and> p = save_dialog w \<and>
           doc = feature_collection fs \<and>
           list_all2 (\<lambda>r f. \<exists>d. f = build_feature r d (utc_now w)) (filter keep_row rows) fs"
proof -
  from main_writes [of w] assms obtain k t rows s where
    a: "csv_file w (open_dialog w) = Inr rows"
      "enrich w k (utc_now w) 0 (filter keep_row rows) (initial_state t) = Inr s"
      "writes (snd (main w)) = [(save_dialog w, feature_collection (features s))]"
    by auto
  from enrich_features [OF a(2)] obtain fs where
    "features s = fs" "list_all2 (\<lambda>r f. \<exists>d. f = build_feature r d (utc_now w)) (filter keep_row rows) fs"
    by auto
  then show ?thesis using a(1,3) assms by auto
qed

lemma example_run:
  "main example_world =
     (Returned,
      [Ev_open_dialog, Ev_save_dialog, Ev_getenv ''GOOGLE_PLACES_API_KEY'', Ev_clock,
       Ev_read_csv ''in.csv'', Ev_print ''Processing: Cafe'',
       Ev_http (find_place_request ''k'' ''Westdam 59''), Ev_sleep,
       Ev_http (place_details_request ''k'' (JStr ''P1'')),
       Ev_print ''Processing: Bar'',
       Ev_http (find_place_request ''k'' ''Bar''), Ev_sleep,
       Ev_write ''out.json'' (feature_collection example_features),
       Ev_print ''Wrote 2 features to out.json''])"
  by code_simp

lemma count_clock_api_key:
  "count_list (snd (get_api_key w [Ev_open_dialog, Ev_save_dialog])) Ev_clock = 0"
  using get_api_key_events [of w "[Ev_open_dialog, Ev_save_dialog]"] by auto

lemma count_clock_write_output:
  "count_list (snd (write_output w p s)) Ev_clock = count_list (events s) Ev_clock"
  by (simp add: write_output_def Let_def count_list_append_clock)

lemma main_clock_once: "count_list (snd (main w)) Ev_clock \<le> 1"
proof (cases w rule: main_cases)
  case cancel_input
  then show ?thesis by simp
next
  case cancel_output
  then show ?thesis by simp
next
  case (no_key e)
  then show ?thesis by (simp add: count_clock_api_key)
next
  case (no_rows e)
  then show ?thesis by (simp add: count_clock_api_key count_list_append_clock)
next
  case (aborted e ex)
  then show ?thesis
    by (simp add: count_clock_api_key count_list_append_clock clock_loop_events)
next
  case (finished k rows s ex)
  then show ?thesis
    by (simp add: count_clock_write_output count_clock_api_key count_list_append_clock
        clock_loop_events)
qed

section \<open>The request budget\<close>

text \<open>
  C1. The number of requests sent to the web service in a run never exceeds
  \<open>API_REQUEST_LIMIT\<close>, whatever the dialogs, the environment, the file and the
  service do, also when the run ends with an exception. In the enrichment loop the
  counter \<open>request_count\<close> stays within the limit and bounds the requests sent: this
  holds after any number \<open>j\<close> of iterations from the initial state, and each iteration
  preserves it.
\<close>

theorem request_budget_invariant:
  "http_count (snd (main w)) \<le> API_REQUEST_LIMIT \<and>
   within_budget (http_count t) (enrich w k now 0 (take j rows) (initial_state t)) \<and>
   (within_budget b (Inr s) \<longrightarrow> within_budget b (process_row w k now i r s))"
proof -
  have "within_budget (http_count t) (Inr (initial_state t))"
    by (simp add: within_budget_def)
  then have "within_budget (http_count t) (enrich w k now 0 (take j rows) (initial_state t))"
    by (rule enrich_budget)
  then show ?thesis
    using main_http_count [of w] process_row_budget [of b s w k now i r] by blast
qed

theorem request_budget_invariant_witness:
  "within_budget 0 (Inr state_999) \<and>
   within_budget 0 (process_row example_world ''k'' ''now'' 1 row_cafe state_999) \<and>
   http_count (snd (main example_world)) \<le> API_REQUEST_LIMIT"
proof -
  have h: "within_budget 0 (Inr state_999)"
    by (simp add: within_budget_def state_999_def API_REQUEST_LIMIT_def)
  show ?thesis
    using h request_budget_invariant
      [of example_world "[]" "''k''" "''now''" 0 "[]" 0 state_999 1 row_cafe]
    by blast
qed

section \<open>Order of the dialogs and the API key\<close>

text \<open>
  C7. \<^verbatim>\<open>main\<close> first shows the open dialog, then the save dialog, and only then reads
  the API key from the environment. When the open dialog is cancelled the run consists of
  that dialog and one message; when the save dialog is cancelled, of the two dialogs and
  one message. In both cases \<^verbatim>\<open>main\<close> returns without reading the environment,
  sending a request or writing a file.
\<close>

theorem dialogs_before_api_key:
  "(open_dialog w = [] \<longrightarrow>
      main w = (Returned, [Ev_open_dialog, Ev_print ''No input file selected. Exiting.''])) \<and>
   (open_dialog w \<noteq> [] \<and> save_dialog w = [] \<longrightarrow>
      main w = (Returned, [Ev_open_dialog, Ev_save_dialog,
                           Ev_print ''No output file selected. Exiting.''])) \<and>
   (open_dialog w \<noteq> [] \<and> save_dialog w \<noteq> [] \<longrightarrow>
      (\<exists>rest. snd (main w) =
         Ev_open_dialog # Ev_save_dialog # Ev_getenv ''GOOGLE_PLACES_API_KEY'' # rest))"
proof -
  have "\<exists>rest. snd (main w) =
         Ev_open_dialog # Ev_save_dialog # Ev_getenv ''GOOGLE_PLACES_API_KEY'' # rest"
    if c: "open_dialog w \<noteq> []" "save_dialog w \<noteq> []"
  proof -
    obtain rest where "snd (main w) = snd (get_api_key w [Ev_open_dialog, Ev_save_dialog]) @ rest"
      using main_trace_prefix [OF c] by blast
    then show ?thesis
      using get_api_key_events [of w "[Ev_open_dialog, Ev_save_dialog]"] by auto
  qed
  then show ?thesis
    using main_cancel_input [of w] main_cancel_output [of w] by blast
qed

theorem dialogs_before_api_key_witness:
  "main (example_world\<lparr>open_dialog := []\<rparr>) =
     (Returned, [Ev_open_dialog, Ev_print ''No input file selected. Exiting.'']) \<and>
   main (example_world\<lparr>save_dialog := []\<rparr>) =
     (Returned, [Ev_open_dialog, Ev_save_dialog, Ev_print ''No output file selected. Exiting.'']) \<and>
   (\<exists>rest. snd (main example_world) =
      Ev_open_dialog # Ev_save_dialog # Ev_getenv ''GOOGLE_PLACES_API_KEY'' # rest)"
  using dialogs_before_api_key [of "example_world\<lparr>open_dialog := []\<rparr>"]
    dialogs_before_api_key [of "example_world\<lparr>save_dialog := []\<rparr>"]
    dialogs_before_api_key [of example_world]
  by (simp add: example_world_def)

section \<open>Rows without location\<close>

text \<open>
  C4. A feature built without details has the coordinates \<open>[0, 0]\<close> and the comment
  that no location information is available. When the lookup of a row yields no details,
  the loop body does nothing more than pause (from the second row on) and append that
  feature: no further request is made. A row met with the budget used up is such a row,
  and for it no request is made at all.
\<close>

theorem unlocated_feature:
  "json_path (build_feature r None now) [''geometry'', ''coordinates''] = JArr [JInt 0, JInt 0] \<and>
   json_path (build_feature r None now) [''properties'', ''Comment''] =
     JStr ''No location information is available for this saved place'' \<and>
   (lookup_row w k (row_field r ''Title'') (row_field r ''URL'')
      (s\<lparr>events := events s @
          [Ev_print (processing_message (row_field r ''Title'') (row_field r ''URL''))]\<rparr>) =
      Inr (None, s1) \<longrightarrow>
    process_row w k now i r s =
      Inr (s1\<lparr>events := events s1 @ (if 0 < i then [Ev_sleep] else []),
              features := features s1 @ [build_feature r None now]\<rparr>)) \<and>
   (API_REQUEST_LIMIT \<le> request_count s \<longrightarrow>
    process_row w k now i r s =
      Inr (s\<lparr>events := events s @
               [Ev_print (processing_message (row_field r ''Title'') (row_field r ''URL''))] @
               (if 0 < i then [Ev_sleep] else []),
             limit_reached := True,
             features := features s @ [build_feature r None now]\<rparr>))"
proof -
  let ?s0 = "s\<lparr>events := events s @
          [Ev_print (processing_message (row_field r ''Title'') (row_field r ''URL''))]\<rparr>"
  have a: "json_path (build_feature r None now) [''geometry'', ''coordinates''] = JArr [JInt 0, JInt 0]"
    by (simp add: build_feature_None dict_get_def)
  have b: "json_path (build_feature r None now) [''properties'', ''Comment''] =
     JStr ''No location information is available for this saved place''"
    by (simp add: build_feature_None dict_get_def)
  have c: "process_row w k now i r s =
      Inr (s1\<lparr>events := events s1 @ (if 0 < i then [Ev_sleep] else []),
              features := features s1 @ [build_feature r None now]\<rparr>)"
    if "lookup_row w k (row_field r ''Title'') (row_field r ''URL'') ?s0 = Inr (None, s1)"
    using process_row_after_lookup [OF that, of now i] by simp
  have d: "process_row w k now i r s =
      Inr (s\<lparr>events := events s @
               [Ev_print (processing_message (row_field r ''Title'') (row_field r ''URL''))] @
               (if 0 < i then [Ev_sleep] else []),
             limit_reached := True,
             features := features s @ [build_feature r None now]\<rparr>)"
    if "API_REQUEST_LIMIT \<le> request_count s"
  proof -
    have "lookup_row w k (row_field r ''Title'') (row_field r ''URL'') ?s0 =
            Inr (None, ?s0\<lparr>limit_reached := True\<rparr>)"
      using that by (simp add: lookup_row_exhausted)
    from process_row_after_lookup [OF this, of now i] show ?thesis by simp
  qed
  from a b c d show ?thesis by blast
qed

theorem unlocated_feature_witness:
  "API_REQUEST_LIMIT \<le> request_count state_1000 \<and>
   process_row example_world ''k'' ''now'' 1 row_cafe state_1000 =
     Inr \<lparr>features = [build_feature row_cafe None ''now''], request_count = 1000,
          limit_reached = True,
          events = [Ev_print ''Processing: Cafe'', Ev_sleep]\<rparr> \<and>
   json_path (build_feature row_cafe None ''now'') [''geometry'', ''coordinates''] =
     JArr [JInt 0, JInt 0]"
proof -
  have h: "API_REQUEST_LIMIT \<le> request_count state_1000"
    by (simp add: state_1000_def API_REQUEST_LIMIT_def)
  have t: "row_field row_cafe ''Title'' = ''Cafe''"
    by code_simp
  show ?thesis
    using h unlocated_feature [of row_cafe "''now''" example_world "''k''" state_1000 state_1000 1]
    by (simp add: state_1000_def processing_message_def t)
qed

section \<open>Axis order\<close>

text \<open>
  C8. The coordinates of a feature built from details are a list of two values, the
  longitude first and the latitude second.
\<close>

theorem coordinates_lng_lat:
  "\<exists>c. json_path (build_feature r (Some d) now) [''geometry'', ''coordinates''] = JArr c \<and>
        length c = 2 \<and> c ! 0 = lng d \<and> c ! 1 = lat d"
  by (simp add: build_feature_Some dict_get_def)

section \<open>Missing fields in the details\<close>




section \<open>Located rows\<close>

text \<open>
  C6. When the lookup of a row yields details, they are what the two requests of that
  row brought: the service answered the row's Find Place request with a body from which
  \<^verbatim>\<open>find_place_id\<close> took a place id, it answered the Place Details request for that id
  with a body that has a result with a geometry with a location, and the details are
  read from that body. The loop body appends the feature built from them: a \<open>Point\<close>
  whose coordinates are the longitude and latitude of that location, with the formatted
  address of that result as the address in its properties (the empty string when the
  service sent none).
\<close>

theorem located_feature:
  assumes "lookup_row w k (row_field r ''Title'') (row_field r ''URL'')
      (s\<lparr>events := events s @
          [Ev_print (processing_message (row_field r ''Title'') (row_field r ''URL''))]\<rparr>) =
      Inr (Some d, s1)"
  shows "\<exists>fbody pid data b res g l.
     http_get w (http_count (events s))
       (find_place_request k (place_query (row_field r ''Title'') (row_field r ''URL''))) =
       Http_json fbody \<and>
     find_place_id_result fbody = Inr pid \<and>
     http_get w (Suc (http_count (events s))) (place_details_request k pid) = Http_json data \<and>
     get_place_details_result data = Inr (Some d) \<and>
     data = JObj b \<and> map_of b ''result'' = Some (JObj res) \<and>
     map_of res ''geometry'' = Some (JObj g) \<and> map_of g ''location'' = Some (JObj l) \<and>
     process_row w k now i r s =
       Inr (s1\<lparr>features := features s1 @ [build_feature r (Some d) now]\<rparr>) \<and>
     json_path (build_feature r (Some d) now) [''geometry'', ''type''] = JStr ''Point'' \<and>
     json_path (build_feature r (Some d) now) [''geometry'', ''coordinates''] =
       JArr [dict_get l ''lng'', dict_get l ''lat''] \<and>
     json_path (build_feature r (Some d) now) [''properties'', ''location'', ''address''] =
       py_or (dict_get res ''formatted_address'') (JStr [])"
proof -
  let ?ti = "row_field r ''Title''" and ?u = "row_field r ''URL''"
  let ?s0 = "s\<lparr>events := events s @ [Ev_print (processing_message ?ti ?u)]\<rparr>"
  from lookup_row_Some [OF assms] obtain pid where
    p: "fst (find_place_id w k ?ti ?u (events ?s0)) = Inr pid" "truthy pid"
      "fst (get_place_details w k pid
              (events ?s0 @ [Ev_http (find_place_request k (place_query ?ti ?u)), Ev_sleep])) =
         Inr (Some d)"
    by blast
  from find_place_id_truthy [OF p(1,2)] obtain fbody where
    f: "http_get w (http_count (events s)) (find_place_request k (place_query ?ti ?u)) =
          Http_json fbody"
      "find_place_id_result fbody = Inr pid"
    by auto
  from get_place_details_Inr [OF p(3)] obtain data where
    g: "http_get w (Suc (http_count (events s))) (place_details_request k pid) = Http_json data"
      "get_place_details_result data = Inr (Some d)"
    by auto
  from details_Some_shape [OF g(2)] obtain b res ge l where
    sh: "data = JObj b" "map_of b ''result'' = Some (JObj res)"
      "map_of res ''geometry'' = Some (JObj ge)" "map_of ge ''location'' = Some (JObj l)"
      "lat d = dict_get l ''lat''" "lng d = dict_get l ''lng''"
      "address d = py_or (dict_get res ''formatted_address'') (JStr [])"
    by blast
  have pr: "process_row w k now i r s =
       Inr (s1\<lparr>features := features s1 @ [build_feature r (Some d) now]\<rparr>)"
    using process_row_after_lookup [OF assms, of now i] by simp
  have ty: "json_path (build_feature r (Some d) now) [''geometry'', ''type''] = JStr ''Point''"
    by (simp add: build_feature_Some dict_get_def)
  have co: "json_path (build_feature r (Some d) now) [''geometry'', ''coordinates''] =
       JArr [dict_get l ''lng'', dict_get l ''lat'']"
    using sh(5,6) by (simp add: build_feature_Some dict_get_def)
  have ad: "json_path (build_feature r (Some d) now) [''properties'', ''location'', ''address''] =
       py_or (dict_get res ''formatted_address'') (JStr [])"
    using sh(7) by (simp add: build_feature_Some dict_get_def)
  from f g sh(1-4) pr ty co ad show ?thesis by blast
qed

theorem located_feature_witness:
  "process_row example_world ''k'' ''2024-01-01T00:00:00Z'' 0 row_cafe (initial_state []) =
     Inr (state_located\<lparr>features :=
            [build_feature row_cafe (Some details_demo) ''2024-01-01T00:00:00Z'']\<rparr>) \<and>
   http_get example_world (Suc (http_count (events (initial_state []))))
     (place_details_request ''k'' (JStr ''P1'')) = Http_json details_ok \<and>
   json_path (build_feature row_cafe (Some details_demo) ''2024-01-01T00:00:00Z'')
     [''geometry'', ''coordinates''] = JArr [JInt 4, JFloat (521 / 10)] \<and>
   json_path (build_feature row_cafe (Some details_demo) ''2024-01-01T00:00:00Z'')
     [''properties'', ''location'', ''address''] = JStr ''Westdam 59, NL''"
proof -
  have f: "find_place_id example_world ''k'' ''Cafe''
             ''https://www.google.com/maps/place/Westdam+59/data=!4m2''
             [Ev_print ''Processing: Cafe''] =
           (Inr (JStr ''P1''),
            [Ev_print ''Processing: Cafe'', Ev_http (find_place_request ''k'' ''Westdam 59'')])"
    by (simp add: find_place_id_def cafe_query requests_get_def example_world_def find_ok_def
        find_place_id_result_def dict_get_def)
  have g: "get_place_details_result details_ok = Inr (Some details_demo)"
    by (simp add: details_ok_def details_demo_def get_place_details_result_def dict_get_def
        py_or_def)
  have h: "get_place_details example_world ''k'' (JStr ''P1'')
             [Ev_print ''Processing: Cafe'', Ev_http (find_place_request ''k'' ''Westdam 59''),
              Ev_sleep] =
           (Inr (Some details_demo), events state_located)"
    using g
    by (simp add: get_place_details_def requests_get_def example_world_def state_located_def)
  have l: "lookup_row example_world ''k'' (row_field row_cafe ''Title'') (row_field row_cafe ''URL'')
      ((initial_state [])\<lparr>events := events (initial_state []) @
          [Ev_print (processing_message (row_field row_cafe ''Title'')
             (row_field row_cafe ''URL''))]\<rparr>) =
      Inr (Some details_demo, state_located)"
    by (simp add: row_cafe_fields processing_message_def lookup_row_def f h
        API_REQUEST_LIMIT_def initial_state_def)
       (simp add: state_located_def)
  from located_feature [OF l, of "''2024-01-01T00:00:00Z''" 0] obtain fbody pid data b res ge lo
    where w:
      "http_get example_world (http_count (events (initial_state [])))
         (find_place_request ''k''
            (place_query (row_field row_cafe ''Title'') (row_field row_cafe ''URL''))) =
         Http_json fbody"
      "find_place_id_result fbody = Inr pid"
      "http_get example_world (Suc (http_count (events (initial_state []))))
         (place_details_request ''k'' pid) = Http_json data"
      "data = JObj b" "map_of b ''result'' = Some (JObj res)"
      "map_of res ''geometry'' = Some (JObj ge)" "map_of ge ''location'' = Some (JObj lo)"
      "process_row example_world ''k'' ''2024-01-01T00:00:00Z'' 0 row_cafe (initial_state []) =
         Inr (state_located\<lparr>features := features state_located @
                [build_feature row_cafe (Some details_demo) ''2024-01-01T00:00:00Z'']\<rparr>)"
      "json_path (build_feature row_cafe (Some details_demo) ''2024-01-01T00:00:00Z'')
         [''geometry'', ''coordinates''] = JArr [dict_get lo ''lng'', dict_get lo ''lat'']"
      "json_path (build_feature row_cafe (Some details_demo) ''2024-01-01T00:00:00Z'')
         [''properties'', ''location'', ''address''] =
         py_or (dict_get res ''formatted_address'') (JStr [])"
    by blast
  from w(1) have "fbody = find_ok" by (simp add: example_world_def)
  with w(2) have pid: "pid = JStr ''P1''"
    by (simp add: find_ok_def find_place_id_result_def dict_get_def)
  from w(3) have data: "data = details_ok" by (simp add: example_world_def)
  from data w(4,5) have res: "res = [(''formatted_address'', JStr ''Westdam 59, NL''),
                  (''geometry'',
                   JObj [(''location'', JObj [(''lat'', JFloat (521 / 10)), (''lng'', JInt 4)])]),
                  (''name'', JStr ''W59'')]"
    by (auto simp: details_ok_def)
  from res w(6,7) have lo: "lo = [(''lat'', JFloat (521 / 10)), (''lng'', JInt 4)]"
    by auto
  have svc: "http_get example_world (Suc (http_count (events (initial_state []))))
     (place_details_request ''k'' (JStr ''P1'')) = Http_json details_ok"
    using w(3) pid data by simp
  from w(8) have pr: "process_row example_world ''k'' ''2024-01-01T00:00:00Z'' 0 row_cafe
      (initial_state []) =
     Inr (state_located\<lparr>features :=
            [build_feature row_cafe (Some details_demo) ''2024-01-01T00:00:00Z'']\<rparr>)"
    by (simp add: state_located_def)
  from w(9) lo have co: "json_path (build_feature row_cafe (Some details_demo) ''2024-01-01T00:00:00Z'')
     [''geometry'', ''coordinates''] = JArr [JInt 4, JFloat (521 / 10)]"
    by (simp add: dict_get_def)
  from w(10) res have ad: "json_path (build_feature row_cafe (Some details_demo) ''2024-01-01T00:00:00Z'')
     [''properties'', ''location'', ''address''] = JStr ''Westdam 59, NL''"
    by (simp add: dict_get_def py_or_def)
  from pr svc co ad show ?thesis by blast
qed

section \<open>The two steps of a lookup\<close>

text \<open>
  C3. For a row met while \<open>request_count\<close> is below the limit, the lookup first calls
  \<^verbatim>\<open>find_place_id\<close>, which sends one Find Place request (none when the query text is
  blank). When that call returns a place id that is true and the counter, now one
  higher, is still below the limit, \<^verbatim>\<open>get_place_details\<close> is called after a pause and
  sends one Place Details request for that id; its result is the row's details and the
  counter has gone up by two. Otherwise no Place Details request is sent, the row has no
  details, the counter has gone up by one, and \<open>limit_reached\<close> is set when there was a
  place id.
\<close>

theorem two_step_lookup:
  assumes "request_count s < API_REQUEST_LIMIT"
    and "find_place_id w k ti u (events s) = (Inr pid, t1)"
  shows
  "t1 = events s @ (if place_query ti u = [] then []
                    else [Ev_http (find_place_request k (place_query ti u))]) \<and>
   (truthy pid \<and> request_count s + 1 < API_REQUEST_LIMIT \<longrightarrow>
      (\<exists>r2. get_place_details w k pid (t1 @ [Ev_sleep]) =
               (r2, t1 @ [Ev_sleep, Ev_http (place_details_request k pid)]) \<and>
            lookup_row w k ti u s =
              (case r2 of
                 Inl e \<Rightarrow> Inl (e, t1 @ [Ev_sleep, Ev_http (place_details_request k pid)])
               | Inr d \<Rightarrow>
                   Inr (d, s\<lparr>request_count := request_count s + 2,
                              events := t1 @ [Ev_sleep, Ev_http (place_details_request k pid)]\<rparr>)))) \<and>
   (\<not> (truthy pid \<and> request_count s + 1 < API_REQUEST_LIMIT) \<longrightarrow>
      lookup_row w k ti u s =
        Inr (None, s\<lparr>request_count := request_count s + 1,
                      limit_reached := (limit_reached s \<or> truthy pid),
                      events := t1\<rparr>))"
proof -
  have t1: "t1 = events s @ (if place_query ti u = [] then []
                    else [Ev_http (find_place_request k (place_query ti u))])"
    using find_place_id_events [of w k ti u "events s"] assms(2) by simp
  have f: "fst (find_place_id w k ti u (events s)) = Inr pid"
    using assms(2) by simp
  have g: "get_place_details w k pid (t1 @ [Ev_sleep]) =
             (fst (get_place_details w k pid (t1 @ [Ev_sleep])),
              t1 @ [Ev_sleep, Ev_http (place_details_request k pid)])"
    using get_place_details_events [of w k pid "t1 @ [Ev_sleep]"]
    by (cases "get_place_details w k pid (t1 @ [Ev_sleep])") simp
  have two: "lookup_row w k ti u s =
              (case fst (get_place_details w k pid (t1 @ [Ev_sleep])) of
                 Inl e \<Rightarrow> Inl (e, t1 @ [Ev_sleep, Ev_http (place_details_request k pid)])
               | Inr d \<Rightarrow>
                   Inr (d, s\<lparr>request_count := request_count s + 2,
                              events := t1 @ [Ev_sleep, Ev_http (place_details_request k pid)]\<rparr>))"
    if "truthy pid" "request_count s + 1 < API_REQUEST_LIMIT"
    using that assms(1) f t1 by (simp add: lookup_row_unfold Let_def split: sum.split)
  have one: "lookup_row w k ti u s =
        Inr (None, s\<lparr>request_count := request_count s + 1,
                      limit_reached := (limit_reached s \<or> truthy pid),
                      events := t1\<rparr>)"
    if "\<not> (truthy pid \<and> request_count s + 1 < API_REQUEST_LIMIT)"
    using that assms(1) f t1 by (auto simp: lookup_row_unfold Let_def)
  from t1 g two one show ?thesis by blast
qed

theorem two_step_lookup_witness:
  "lookup_row example_world ''k'' ''Cafe'' [] (initial_state []) =
     Inr (Some details_demo,
          \<lparr>features = [], request_count = 2, limit_reached = False,
           events = [Ev_http (find_place_request ''k'' ''Cafe''), Ev_sleep,
                     Ev_http (place_details_request ''k'' (JStr ''P1''))]\<rparr>) \<and>
   lookup_row example_world ''k'' ''Cafe'' [] state_999 =
     Inr (None,
          \<lparr>features = [], request_count = 1000, limit_reached = True,
           events = [Ev_http (find_place_request ''k'' ''Cafe'')]\<rparr>)"
proof -
  have q: "place_query ''Cafe'' [] = ''Cafe''"
    by code_simp
  have f: "find_place_id example_world ''k'' ''Cafe'' [] [] =
             (Inr (JStr ''P1''), [Ev_http (find_place_request ''k'' ''Cafe'')])"
    by (simp add: find_place_id_def q requests_get_def example_world_def find_ok_def
        find_place_id_result_def dict_get_def)
  have g: "get_place_details_result details_ok = Inr (Some details_demo)"
    by (simp add: details_ok_def details_demo_def get_place_details_result_def dict_get_def
        py_or_def)
  have h: "get_place_details example_world ''k'' (JStr ''P1'')
             ([Ev_http (find_place_request ''k'' ''Cafe'')] @ [Ev_sleep]) =
           (Inr (Some details_demo),
            [Ev_http (find_place_request ''k'' ''Cafe''), Ev_sleep,
             Ev_http (place_details_request ''k'' (JStr ''P1''))])"
    using g by (simp add: get_place_details_def requests_get_def example_world_def)
  have a: "request_count (initial_state []) < API_REQUEST_LIMIT"
    by (simp add: API_REQUEST_LIMIT_def)
  have b: "request_count state_999 < API_REQUEST_LIMIT"
    by (simp add: API_REQUEST_LIMIT_def state_999_def)
  have fa: "find_place_id example_world ''k'' ''Cafe'' [] (events (initial_state [])) =
             (Inr (JStr ''P1''), [Ev_http (find_place_request ''k'' ''Cafe'')])"
    using f by simp
  have fb: "find_place_id example_world ''k'' ''Cafe'' [] (events state_999) =
             (Inr (JStr ''P1''), [Ev_http (find_place_request ''k'' ''Cafe'')])"
    using f by (simp add: state_999_def)
  have t: "truthy (JStr ''P1'') \<and> request_count (initial_state []) + 1 < API_REQUEST_LIMIT"
    by (simp add: API_REQUEST_LIMIT_def)
  from two_step_lookup [OF a fa] t obtain r2 where
    r2: "get_place_details example_world ''k'' (JStr ''P1'')
           ([Ev_http (find_place_request ''k'' ''Cafe'')] @ [Ev_sleep]) =
         (r2, [Ev_http (find_place_request ''k'' ''Cafe'')] @
              [Ev_sleep, Ev_http (place_details_request ''k'' (JStr ''P1''))])"
      and l: "lookup_row example_world ''k'' ''Cafe'' [] (initial_state []) =
         (case r2 of
            Inl e \<Rightarrow> Inl (e, [Ev_http (find_place_request ''k'' ''Cafe'')] @
                        [Ev_sleep, Ev_http (place_details_request ''k'' (JStr ''P1''))])
          | Inr d \<Rightarrow>
              Inr (d, (initial_state [])\<lparr>request_count := request_count (initial_state []) + 2,
                         events := [Ev_http (find_place_request ''k'' ''Cafe'')] @
                           [Ev_sleep, Ev_http (place_details_request ''k'' (JStr ''P1''))]\<rparr>))"
    by blast
  from r2 h have "r2 = Inr (Some details_demo)" by simp
  with l have 1: "lookup_row example_world ''k'' ''Cafe'' [] (initial_state []) =
     Inr (Some details_demo,
          \<lparr>features = [], request_count = 2, limit_reached = False,
           events = [Ev_http (find_place_request ''k'' ''Cafe''), Ev_sleep,
                     Ev_http (place_details_request ''k'' (JStr ''P1''))]\<rparr>)"
    by (simp add: initial_state_def)
  have 2: "lookup_row example_world ''k'' ''Cafe'' [] state_999 =
     Inr (None,
          \<lparr>features = [], request_count = 1000, limit_reached = True,
           events = [Ev_http (find_place_request ''k'' ''Cafe'')]\<rparr>)"
    using two_step_lookup [OF b fb]
    by (simp add: API_REQUEST_LIMIT_def state_999_def)
  from 1 2 show ?thesis by blast
qed

section \<open>One feature per row\<close>

text \<open>
  C2, as the claim states it, fails: in the example the file has three rows and the
  document written has two features, because \<^verbatim>\<open>main\<close> drops the row whose title and
  URL are both blank before the loop.
\<close>

theorem one_feature_per_row_counterexample:
  "csv_file example_world (open_dialog example_world) = Inr [row_cafe, row_blank, row_bar] \<and>
   \<not> keep_row row_blank \<and>
   writes (snd (main example_world)) = [(''out.json'', feature_collection example_features)] \<and>
   length example_features = 2"
  by (simp add: example_run)
     (simp add: example_world_def row_blank_dropped example_features_def)

text \<open>
  C2, amended. When \<^verbatim>\<open>main\<close> returns after both dialogs were answered, it has
  written exactly one document. Every document written goes to the path of the save
  dialog and is an object with \<open>type\<close> \<open>FeatureCollection\<close> whose \<open>features\<close> are, in
  the order of the file, one feature built from each row that has a title or a URL that
  is not blank.
\<close>

theorem one_feature_per_kept_row:
  "(fst (main w) = Returned \<and> open_dialog w \<noteq> [] \<and> save_dialog w \<noteq> [] \<longrightarrow>
      length (writes (snd (main w))) = 1) \<and>
   ((p, doc) \<in> set (writes (snd (main w))) \<longrightarrow>
      (\<exists>rows fs. csv_file w (open_dialog w) = Inr rows \<and> p = save_dialog w \<and>
         doc = JObj [(''type'', JStr ''FeatureCollection''), (''features'', JArr fs)] \<and>
         list_all2 (\<lambda>r f. \<exists>d. f = build_feature r d (utc_now w)) (filter keep_row rows) fs \<and>
         length fs = length (filter keep_row rows)))"
proof -
  have a: "length (writes (snd (main w))) = 1"
    if "fst (main w) = Returned" "open_dialog w \<noteq> []" "save_dialog w \<noteq> []"
    using main_writes [of w] that by auto
  have b: "\<exists>rows fs. csv_file w (open_dialog w) = Inr rows \<and> p = save_dialog w \<and>
         doc = JObj [(''type'', JStr ''FeatureCollection''), (''features'', JArr fs)] \<and>
         list_all2 (\<lambda>r f. \<exists>d. f = build_feature r d (utc_now w)) (filter keep_row rows) fs \<and>
         length fs = length (filter keep_row rows)"
    if "(p, doc) \<in> set (writes (snd (main w)))"
  proof -
    from main_written_features [OF that] obtain rows fs where
      f: "csv_file w (open_dialog w) = Inr rows" "p = save_dialog w" "doc = feature_collection fs"
        "list_all2 (\<lambda>r f. \<exists>d. f = build_feature r d (utc_now w)) (filter keep_row rows) fs"
      by blast
    from f(4) have "length fs = length (filter keep_row rows)"
      by (simp add: list_all2_lengthD)
    then show ?thesis using f by (auto simp: feature_collection_def)
  qed
  from a b show ?thesis by blast
qed

theorem one_feature_per_kept_row_witness:
  "fst (main example_world) = Returned \<and>
   length (writes (snd (main example_world))) = 1 \<and>
   (\<exists>rows fs. csv_file example_world (open_dialog example_world) = Inr rows \<and>
      ''out.json'' = save_dialog example_world \<and>
      feature_collection example_features =
        JObj [(''type'', JStr ''FeatureCollection''), (''features'', JArr fs)] \<and>
      list_all2 (\<lambda>r f. \<exists>d. f = build_feature r d (utc_now example_world))
        (filter keep_row rows) fs \<and>
      length fs = length (filter keep_row rows))"
proof -
  have m: "(''out.json'',
            feature_collection example_features) \<in>
           set (writes (snd (main example_world)))"
    by (simp add: example_run)
  have r: "fst (main example_world) = Returned" by (simp add: example_run)
  have d: "open_dialog example_world \<noteq> [] \<and> save_dialog example_world \<noteq> []"
    by (simp add: example_world_def)
  show ?thesis
    using m r d one_feature_per_kept_row [of example_world "''out.json''"
      "feature_collection example_features"]
    by blast
qed

section \<open>One timestamp per run\<close>

text \<open>
  C9. A run reads the clock at most once; \<^verbatim>\<open>build_feature\<close> puts the timestamp it is
  given in the \<open>date\<close> property, with or without details; and every feature of a
  document that \<^verbatim>\<open>main\<close> writes has the \<open>date\<close> read from the clock in that run.
\<close>

theorem shared_date:
  "count_list (snd (main w)) Ev_clock \<le> 1 \<and>
   json_path (build_feature r dets now) [''properties'', ''date''] = JStr now \<and>
   ((p, doc) \<in> set (writes (snd (main w))) \<longrightarrow>
      (\<exists>fs. doc = feature_collection fs \<and>
         list_all (\<lambda>f. json_path f [''properties'', ''date''] = JStr (utc_now w)) fs))"
proof -
  have "\<exists>fs. doc = feature_collection fs \<and>
         list_all (\<lambda>f. json_path f [''properties'', ''date''] = JStr (utc_now w)) fs"
    if "(p, doc) \<in> set (writes (snd (main w)))"
  proof -
    from main_written_features [OF that] obtain rows fs where
      "doc = feature_collection fs"
      "list_all2 (\<lambda>r f. \<exists>d. f = build_feature r d (utc_now w)) (filter keep_row rows) fs"
      by blast
    then show ?thesis using list_all2_built_date by blast
  qed
  then show ?thesis
    using main_clock_once [of w] build_feature_date [of r dets now] by blast
qed

theorem shared_date_witness:
  "(''out.json'',
    feature_collection example_features) \<in>
     set (writes (snd (main example_world))) \<and>
   list_all (\<lambda>f. json_path f [''properties'', ''date''] = JStr (utc_now example_world))
     example_features \<and>
   count_list (snd (main example_world)) Ev_clock \<le> 1"
proof -
  have m: "(''out.json'',
            feature_collection example_features) \<in>
           set (writes (snd (main example_world)))"
    by (simp add: example_run)
  from m shared_date [of example_world row_cafe "Some details_demo" "''2024-01-01T00:00:00Z''"
      "''out.json''"
      "feature_collection example_features"]
  show ?thesis
    by (auto simp: feature_collection_def)
qed

end
